theory Spec2Isabelle
  imports Complex_Main "HOL-Library.AList"
begin

section \<open>JavaScript values\<close>

text \<open>
  The player script works on JSON data: the episode records fetched from the backend and
  the lists it keeps in \<open>localStorage\<close>. A JSON value is modelled as it is after
  \<open>JSON.parse\<close>; an object is an association list in property order. A JavaScript
  value is a JSON value or \<open>undefined\<close> (\<open>None\<close>). A JSON number is the real value
  of the double it denotes; strings are lists of characters.
\<close>

datatype json =
    JNull
  | JBool bool
  | JNum real
  | JStr string
  | JArr "json list"
  | JObj "(string \<times> json) list"

type_synonym jsval = "json option"

text \<open>The values a numeric expression can take: a finite number, an infinity or NaN.\<close>

datatype number = Finite real | PosInf | NegInf | NaN

datatype error = TypeError | SyntaxError

text \<open>The relational operators against a numeric constant; every comparison with NaN is false.\<close>

fun num_ge :: "number \<Rightarrow> real \<Rightarrow> bool" where
  "num_ge (Finite x) c = (c \<le> x)"
| "num_ge PosInf c = True"
| "num_ge NegInf c = False"
| "num_ge NaN c = False"

fun num_le :: "number \<Rightarrow> real \<Rightarrow> bool" where
  "num_le (Finite x) c = (x \<le> c)"
| "num_le PosInf c = False"
| "num_le NegInf c = True"
| "num_le NaN c = False"

fun num_lt :: "number \<Rightarrow> real \<Rightarrow> bool" where
  "num_lt (Finite x) c = (x < c)"
| "num_lt PosInf c = False"
| "num_lt NegInf c = True"
| "num_lt NaN c = False"

text \<open>\<open>a > b\<close> between two numbers, and the truthiness of a number.\<close>

fun number_gt :: "number \<Rightarrow> number \<Rightarrow> bool" where
  "number_gt NaN b = False"
| "number_gt a NaN = False"
| "number_gt NegInf b = False"
| "number_gt a PosInf = False"
| "number_gt PosInf b = True"
| "number_gt (Finite x) NegInf = True"
| "number_gt (Finite x) (Finite y) = (y < x)"

fun number_truthy :: "number \<Rightarrow> bool" where
  "number_truthy (Finite x) = (x \<noteq> 0)"
| "number_truthy NaN = False"
| "number_truthy n = True"

section \<open>Operations of the language\<close>

text \<open>
  Property access \<open>v.k\<close> and \<open>v[k]\<close>: a \<open>TypeError\<close> on \<open>undefined\<close> and \<open>null\<close>, the
  property on an object, \<open>undefined\<close> on every other value (none of the property names the
  script reads is a built-in property of a string, number, boolean or array).
\<close>

fun get_prop :: "jsval \<Rightarrow> string \<Rightarrow> error + jsval" where
  "get_prop None k = Inl TypeError"
| "get_prop (Some JNull) k = Inl TypeError"
| "get_prop (Some (JObj kvs)) k = Inr (map_of kvs k)"
| "get_prop (Some v) k = Inr None"

text \<open>Truthiness: what \<open>if (v)\<close>, \<open>!v\<close>, \<open>v && ...\<close> and \<open>v || ...\<close> test.\<close>

fun truthy :: "jsval \<Rightarrow> bool" where
  "truthy None = False"
| "truthy (Some JNull) = False"
| "truthy (Some (JBool b)) = b"
| "truthy (Some (JNum r)) = (r \<noteq> 0)"
| "truthy (Some (JStr s)) = (s \<noteq> [])"
| "truthy (Some (JArr xs)) = True"
| "truthy (Some (JObj kvs)) = True"

text \<open>
  Strict equality \<open>a === b\<close> between a value read from a freshly parsed list and a value
  that comes from elsewhere: primitives are compared by type and value, and an object or
  an array is never the same reference as one from another source.
\<close>

definition strict_eq :: "jsval \<Rightarrow> jsval \<Rightarrow> bool" where
  "strict_eq a b =
     (case a of
        None \<Rightarrow> b = None
      | Some JNull \<Rightarrow> b = Some JNull
      | Some (JBool x) \<Rightarrow> b = Some (JBool x)
      | Some (JNum x) \<Rightarrow> b = Some (JNum x)
      | Some (JStr x) \<Rightarrow> b = Some (JStr x)
      | Some (JArr xs) \<Rightarrow> False
      | Some (JObj kvs) \<Rightarrow> False)"

text \<open>
  \<open>s.includes(needle)\<close> on strings, and \<open>s.toLowerCase()\<close> on the ASCII letters: an upper
  case letter (codes 65 to 90) becomes the letter 32 above it, which sets its bit of
  weight 32.
\<close>

fun startsWith :: "string \<Rightarrow> string \<Rightarrow> bool" where
  "startsWith s [] = True"
| "startsWith [] (p # ps) = False"
| "startsWith (c # cs) (p # ps) = (c = p \<and> startsWith cs ps)"

fun str_includes :: "string \<Rightarrow> string \<Rightarrow> bool" where
  "str_includes [] needle = (needle = [])"
| "str_includes (c # cs) needle = (startsWith (c # cs) needle \<or> str_includes cs needle)"

definition lowerChar :: "char \<Rightarrow> char" where
  "lowerChar c =
     (if 65 \<le> (of_char c :: nat) \<and> (of_char c :: nat) \<le> 90
      then (case c of Char b0 b1 b2 b3 b4 b5 b6 b7 \<Rightarrow> Char b0 b1 b2 b3 b4 True b6 b7)
      else c)"

definition toLowerCase :: "string \<Rightarrow> string" where
  "toLowerCase s = map lowerChar s"

section \<open>Ad regions\<close>

text \<open>The three ad slots, named by the strings \<open>getCurrentAdRegion\<close> returns.\<close>

datatype adRegion = preLoll | midLoll | postLoll

text \<open>\<open>getCurrentAdRegion\<close> (the same in every revision); \<open>None\<close> is \<open>null\<close>.\<close>

definition getCurrentAdRegion :: "number \<Rightarrow> adRegion option" where
  "getCurrentAdRegion percentage =
     (if num_ge percentage 19 \<and> num_lt percentage 49 then Some preLoll
      else if num_ge percentage 55 \<and> num_le percentage 75 then Some midLoll
      else if num_ge percentage 81 \<and> num_le percentage 100 then Some postLoll
      else None)"

section \<open>The global state\<close>

text \<open>
  A text kept in \<open>localStorage\<close> is modelled by what \<open>JSON.parse\<close> makes of it: a text that
  is not JSON (with its characters), or the JSON value it encodes. \<open>JSON.stringify\<close> of a
  JSON value is the text encoding it. Reading and writing an item always succeed: a
  storage that is full or denied is not modelled.
\<close>

datatype storedText = Unparseable string | Encoding json

fun JSON_parse :: "storedText \<Rightarrow> error + json" where
  "JSON_parse (Unparseable s) = Inl SyntaxError"
| "JSON_parse (Encoding v) = Inr v"

definition JSON_stringify :: "json \<Rightarrow> storedText" where
  "JSON_stringify v = Encoding v"

text \<open>The falsy texts: a missing entry (\<open>getItem\<close> returns \<open>null\<close>) and the empty string.\<close>

fun text_truthy :: "storedText option \<Rightarrow> bool" where
  "text_truthy None = False"
| "text_truthy (Some (Unparseable s)) = (s \<noteq> [])"
| "text_truthy (Some (Encoding v)) = True"

text \<open>
  The console holds the calls of \<open>console.error\<close> and \<open>console.warn\<close>, with the fixed part
  of their message; \<open>console.log\<close> is not recorded.
\<close>

datatype logEntry = LogError string | LogWarn string

text \<open>A timer or animation-frame handle, as \<open>setInterval\<close> returns it (a positive number).\<close>

datatype handle = Handle nat

text \<open>
  What the script asks of the player widget, the ad plugin, the browser's timers, the page
  and the host app. \<open>AdTrackingReset\<close> is not a call: it marks, in the sequence of the
  calls, the place where the ad tracking variables are assigned their initial values.
\<close>

datatype command =
    Notice string
  | SwitchUrl json jsval
  | Pause
  | ExitFullscreen
  | HostCall string json
  | AdUpdateVideoLink jsval nat nat
  | ShowLockLayer
  | ClearInterval handle
  | CancelAnimationFrame handle
  | AdTrackingReset

text \<open>
  The variables the modelled functions read and write: the browser's \<open>localStorage\<close> and
  console, the globals \<open>videoType\<close> and \<open>tempData\<close>, \<open>window.device\<close>, the ad tracking
  variables, the timer handles kept on \<open>window\<close> with the set of timers that are live in the
  browser, the active record, whether the ad plugin is there, the ad links, whether the
  player is in fullscreen and on iOS, and the commands issued so far, in the order in
  which the statements that issue them are executed.
\<close>

record state =
  localStorage :: "string \<Rightarrow> storedText option"
  console :: "logEntry list"
  videoType :: string
  tempData :: jsval
  device :: "string option"
  preAdShown :: bool
  midAdShown :: bool
  postAdShown :: bool
  isAdPlaying :: bool
  currentAdRegion :: "adRegion option"
  pendingAdType :: "adRegion option"
  adCountdownInterval :: "handle option"
  nextEpisodeCountdownTimer :: "handle option"
  nextEpisodeBorderAnimation :: "handle option"
  liveTimers :: "handle set"
  currentMovieData :: jsval
  activeQuality :: string
  adPlugin :: bool
  allLolls :: "json list"
  lockOverlayShown :: bool
  fullscreen :: bool
  isIOS :: bool
  commands :: "command list"

definition console_error :: "string \<Rightarrow> state \<Rightarrow> state" where
  "console_error msg st = st\<lparr>console := console st @ [LogError msg]\<rparr>"

definition console_warn :: "string \<Rightarrow> state \<Rightarrow> state" where
  "console_warn msg st = st\<lparr>console := console st @ [LogWarn msg]\<rparr>"

section \<open>The quality preference\<close>

definition USER_QUALITY_PREFERENCE_KEY :: string where
  "USER_QUALITY_PREFERENCE_KEY = ''userPreferredQuality''"

text \<open>\<open>getUserQualityPreference\<close>: the stored text when it is one of the three tiers.\<close>

definition getUserQualityPreference :: "state \<Rightarrow> string option" where
  "getUserQualityPreference st =
     (case localStorage st USER_QUALITY_PREFERENCE_KEY of
        Some (Unparseable preference) \<Rightarrow>
          if preference = ''hd'' \<or> preference = ''mid'' \<or> preference = ''low''
          then Some preference else None
      | _ \<Rightarrow> None)"

definition saveUserQualityPreference :: "string \<Rightarrow> state \<Rightarrow> state" where
  "saveUserQualityPreference quality st =
     (if quality = ''hd'' \<or> quality = ''mid'' \<or> quality = ''low''
      then st\<lparr>localStorage := (localStorage st)(USER_QUALITY_PREFERENCE_KEY := Some (Unparseable quality))\<rparr>
      else console_warn ''Attempted to save invalid quality preference:'' st)"

section \<open>Choosing the rendition to play\<close>

definition qualityOrder :: "string list" where
  "qualityOrder = [''hd'', ''mid'', ''low'']"

text \<open>
  The test \<open>url && !url.includes('not found')\<close>: the URL when it passes. A truthy value
  that is neither a string nor an array has no \<open>includes\<close> method, and the call raises.
\<close>

definition usable :: "jsval \<Rightarrow> error + json option" where
  "usable url =
     (if \<not> truthy url then Inr None
      else case url of
        Some (JStr s) \<Rightarrow> Inr (if \<not> str_includes s ''not found'' then Some (JStr s) else None)
      | Some (JArr xs) \<Rightarrow> Inr (if JStr ''not found'' \<notin> set xs then Some (JArr xs) else None)
      | _ \<Rightarrow> Inl TypeError)"

text \<open>
  The loop \<open>for (const quality of qualityOrder)\<close>, which stops at the first usable URL;
  \<open>skip\<close> is the tier of the \<open>continue\<close> statement, when the loop has one.
\<close>

fun scanQualities :: "string list \<Rightarrow> string option \<Rightarrow> jsval \<Rightarrow> error + (json \<times> string) option" where
  "scanQualities [] skip videoData = Inr None"
| "scanQualities (quality # rest) skip videoData =
     (if skip = Some quality then scanQualities rest skip videoData
      else case get_prop videoData (quality @ ''Video'') of
        Inl e \<Rightarrow> Inl e
      | Inr url \<Rightarrow>
          (case usable url of
             Inl e \<Rightarrow> Inl e
           | Inr (Some u) \<Rightarrow> Inr (Some (u, quality))
           | Inr None \<Rightarrow> scanQualities rest skip videoData))"

text \<open>
  The selection of \<open>selectedUrl\<close> and \<open>selectedQuality\<close>: the preferred tier, else the first
  usable tier in \<open>qualityOrder\<close>; with no preference the tier \<open>dflt\<close> first, then the loop
  that skips the tier \<open>skip\<close>. The revisions differ in \<open>dflt\<close> and \<open>skip\<close> only.
\<close>

definition selectUrl :: "string \<Rightarrow> string \<Rightarrow> jsval \<Rightarrow> string option \<Rightarrow> error + (json \<times> string) option" where
  "selectUrl dflt skip videoData preferredQuality =
     (case (case preferredQuality of Some pq \<Rightarrow> if pq \<noteq> [] then Some pq else None | None \<Rightarrow> None) of
        Some pq \<Rightarrow>
          (case get_prop videoData (pq @ ''Video'') of
             Inl e \<Rightarrow> Inl e
           | Inr preferredUrl \<Rightarrow>
               (case usable preferredUrl of
                  Inl e \<Rightarrow> Inl e
                | Inr (Some u) \<Rightarrow> Inr (Some (u, pq))
                | Inr None \<Rightarrow> scanQualities qualityOrder None videoData))
      | None \<Rightarrow>
          (case get_prop videoData (dflt @ ''Video'') of
             Inl e \<Rightarrow> Inl e
           | Inr dfltUrl \<Rightarrow>
               (case usable dfltUrl of
                  Inl e \<Rightarrow> Inl e
                | Inr (Some u) \<Rightarrow> Inr (Some (u, dflt))
                | Inr None \<Rightarrow> scanQualities qualityOrder (Some skip) videoData)))"

text \<open>
  The second half of \<open>determinePlaybackQualityAndUrl\<close> in part_002 and part_000: it sets
  \<open>videoType\<close> from the selected URL. \<open>unknown\<close> is the value assigned when the URL names
  no known type: \<open>'m3u8'\<close> in part_002, the empty string in part_000. A selected array has
  no \<open>toLowerCase\<close> method, and the call raises.
\<close>

definition setVideoType :: "string \<Rightarrow> (json \<times> string) option \<Rightarrow> state \<Rightarrow> (error + (json \<times> string) option) \<times> state" where
  "setVideoType unknown selected st =
     (case selected of
        None \<Rightarrow>
          (Inr None, (console_error ''No playable video sources found.'' st)\<lparr>videoType := ''m3u8''\<rparr>)
      | Some (selectedUrl, selectedQuality) \<Rightarrow>
          (case selectedUrl of
             JStr s \<Rightarrow>
               (let lowerSelectedUrl = toLowerCase s;
                    st' =
                      (if str_includes lowerSelectedUrl ''.m3u8'' \<or> str_includes lowerSelectedUrl ''.rebacdn1''
                       then st\<lparr>videoType := ''m3u8''\<rparr>
                       else if str_includes lowerSelectedUrl ''.mpd'' \<or> str_includes lowerSelectedUrl ''.rebacdn2''
                       then st\<lparr>videoType := ''mpd''\<rparr>
                       else (console_warn ''Unknown video type for selected URL. Defaulting to 'm3u8'.'' st)
                              \<lparr>videoType := unknown\<rparr>)
                in (if selectedQuality \<noteq> [] then Inr (Some (selectedUrl, selectedQuality)) else Inr None, st'))
           | _ \<Rightarrow> (Inl TypeError, st)))"

text \<open>
  \<open>determinePlaybackQualityAndUrl\<close> of part_002: it keeps the record in \<open>tempData\<close>,
  defaults to \<open>'mid'\<close> when there is no preference, and sets \<open>videoType\<close>. The result
  \<open>None\<close> is \<open>null\<close>.
\<close>

definition determinePlaybackQualityAndUrl_part002 ::
    "jsval \<Rightarrow> string option \<Rightarrow> state \<Rightarrow> (error + (json \<times> string) option) \<times> state" where
  "determinePlaybackQualityAndUrl_part002 movieData preferredQuality st0 =
     (let st = st0\<lparr>tempData := movieData\<rparr> in
      case get_prop movieData ''video'' of
        Inl e \<Rightarrow> (Inl e, st)
      | Inr videoData \<Rightarrow>
          if \<not> truthy videoData
          then (Inr None, (console_error ''No video data found in movie '' st)\<lparr>videoType := ''m3u8''\<rparr>)
          else (case selectUrl ''mid'' ''mid'' videoData preferredQuality of
                  Inl e \<Rightarrow> (Inl e, st)
                | Inr selected \<Rightarrow> setVideoType ''m3u8'' selected st))"

text \<open>
  The revision of part_000: no \<open>tempData\<close>, the default tier is \<open>'low'\<close> while the loop
  still skips \<open>'mid'\<close>, and an unknown type leaves \<open>videoType\<close> empty.
\<close>

definition determinePlaybackQualityAndUrl_part000 ::
    "jsval \<Rightarrow> string option \<Rightarrow> state \<Rightarrow> (error + (json \<times> string) option) \<times> state" where
  "determinePlaybackQualityAndUrl_part000 movieData preferredQuality st =
     (case get_prop movieData ''video'' of
        Inl e \<Rightarrow> (Inl e, st)
      | Inr videoData \<Rightarrow>
          if \<not> truthy videoData
          then (Inr None, (console_error ''No video data found in movie '' st)\<lparr>videoType := ''m3u8''\<rparr>)
          else (case selectUrl ''low'' ''mid'' videoData preferredQuality of
                  Inl e \<Rightarrow> (Inl e, st)
                | Inr selected \<Rightarrow> setVideoType [] selected st))"

text \<open>
  The revision of part_001: it returns from inside the branches and has no \<open>videoType\<close>;
  it defaults to \<open>'mid'\<close>. Its two messages for the case that nothing can be played
  differ in their wording only and are one message here.
\<close>

definition determinePlaybackQualityAndUrl_part001 ::
    "jsval \<Rightarrow> string option \<Rightarrow> state \<Rightarrow> (error + (json \<times> string) option) \<times> state" where
  "determinePlaybackQualityAndUrl_part001 movieData preferredQuality st =
     (case get_prop movieData ''video'' of
        Inl e \<Rightarrow> (Inl e, st)
      | Inr videoData \<Rightarrow>
          if \<not> truthy videoData
          then (Inr None, console_error ''No video data found in movie '' st)
          else (case selectUrl ''mid'' ''mid'' videoData preferredQuality of
                  Inl e \<Rightarrow> (Inl e, st)
                | Inr None \<Rightarrow> (Inr None, console_error ''No playable video sources found'' st)
                | Inr (Some sel) \<Rightarrow> (Inr (Some sel), st)))"

section \<open>The continue-watching list\<close>

definition CONTINUE_WATCHING_KEY :: string where
  "CONTINUE_WATCHING_KEY = ''continuewatching''"

text \<open>
  \<open>getContinueWatchingList\<close>: the stored array; the empty list when the text is missing,
  empty, not JSON (the \<open>catch\<close>) or not an array.
\<close>

definition getContinueWatchingList :: "state \<Rightarrow> json list" where
  "getContinueWatchingList st =
     (let savedData = localStorage st CONTINUE_WATCHING_KEY in
      if text_truthy savedData then
        (case savedData of
           None \<Rightarrow> []
         | Some t \<Rightarrow>
             (case JSON_parse t of
                Inl e \<Rightarrow> []
              | Inr (JArr list) \<Rightarrow> list
              | Inr _ \<Rightarrow> []))
      else [])"

text \<open>The callback \<open>item => item.movieId === movieId\<close>; it raises on a \<open>null\<close> item.\<close>

definition has_movieId :: "jsval \<Rightarrow> json \<Rightarrow> error + bool" where
  "has_movieId movieId item =
     (case get_prop (Some item) ''movieId'' of
        Inl e \<Rightarrow> Inl e
      | Inr v \<Rightarrow> Inr (strict_eq v movieId))"

text \<open>\<open>Array.prototype.findIndex\<close>, \<open>find\<close> and \<open>filter\<close> with a callback that can raise.\<close>

fun findIndex :: "(json \<Rightarrow> error + bool) \<Rightarrow> json list \<Rightarrow> error + nat option" where
  "findIndex p [] = Inr None"
| "findIndex p (x # xs) =
     (case p x of
        Inl e \<Rightarrow> Inl e
      | Inr True \<Rightarrow> Inr (Some 0)
      | Inr False \<Rightarrow>
          (case findIndex p xs of
             Inl e \<Rightarrow> Inl e
           | Inr None \<Rightarrow> Inr None
           | Inr (Some i) \<Rightarrow> Inr (Some (Suc i))))"

fun js_find :: "(json \<Rightarrow> error + bool) \<Rightarrow> json list \<Rightarrow> error + jsval" where
  "js_find p [] = Inr None"
| "js_find p (x # xs) =
     (case p x of
        Inl e \<Rightarrow> Inl e
      | Inr True \<Rightarrow> Inr (Some x)
      | Inr False \<Rightarrow> js_find p xs)"

fun js_filter :: "(json \<Rightarrow> error + bool) \<Rightarrow> json list \<Rightarrow> error + json list" where
  "js_filter p [] = Inr []"
| "js_filter p (x # xs) =
     (case p x of
        Inl e \<Rightarrow> Inl e
      | Inr keep \<Rightarrow>
          (case js_filter p xs of
             Inl e \<Rightarrow> Inl e
           | Inr ys \<Rightarrow> Inr (if keep then x # ys else ys)))"

text \<open>
  The properties an object spread \<open>{...v}\<close> copies: those of an object, the elements of
  an array or the characters of a string under their indices, none of another value.
\<close>

fun digitsOf :: "nat \<Rightarrow> string" where
  "digitsOf n = (if n < 10 then [char_of (48 + n)] else digitsOf (n div 10) @ [char_of (48 + n mod 10)])"

declare digitsOf.simps [simp del]

definition indexed :: "json list \<Rightarrow> (string \<times> json) list" where
  "indexed xs = zip (map digitsOf [0..<length xs]) xs"

fun spread :: "jsval \<Rightarrow> (string \<times> json) list" where
  "spread (Some (JObj kvs)) = kvs"
| "spread (Some (JArr xs)) = indexed xs"
| "spread (Some (JStr s)) = indexed (map (\<lambda>c. JStr [c]) s)"
| "spread v = []"

text \<open>\<open>dataToStore\<close>: the copy of the record with the property \<open>video\<close> deleted.\<close>

definition dataToStore :: "jsval \<Rightarrow> json" where
  "dataToStore episodeData = JObj (AList.delete ''video'' (spread episodeData))"

definition setItem :: "string \<Rightarrow> storedText \<Rightarrow> state \<Rightarrow> state" where
  "setItem key text st = st\<lparr>localStorage := (localStorage st)(key := Some text)\<rparr>"

text \<open>The call to the host app's handler, made when \<open>window.device == "app"\<close>.\<close>

definition notifyHost :: "json list \<Rightarrow> state \<Rightarrow> state" where
  "notifyHost list st =
     (if device st = Some ''app''
      then st\<lparr>commands := commands st @
             [HostCall ''playerAction'' (JObj [(''action'', JStr ''saveEpisodeProgress''), (''data'', JArr list)])]\<rparr>
      else st)"

text \<open>
  \<open>saveEpisodeProgress\<close> of part_002. The first component of the result is the exception
  that escapes, if any; the state is then as it was.
\<close>

definition saveEpisodeProgress :: "jsval \<Rightarrow> state \<Rightarrow> error option \<times> state" where
  "saveEpisodeProgress episodeData st =
     (if \<not> truthy episodeData then (None, st)
      else case get_prop episodeData ''movieId'' of
        Inl e \<Rightarrow> (Some e, st)
      | Inr movieId \<Rightarrow>
          if \<not> truthy movieId then (None, st)
          else
            (let list = getContinueWatchingList st in
             case findIndex (has_movieId movieId) list of
               Inl e \<Rightarrow> (Some e, st)
             | Inr existingIndex \<Rightarrow>
                 (let list1 = (case existingIndex of
                                 Some i \<Rightarrow> list[i := dataToStore episodeData]
                               | None \<Rightarrow> dataToStore episodeData # list);
                      list2 = (if length list1 > 15 then take 15 list1 else list1)
                  in (None, notifyHost list2
                              (setItem CONTINUE_WATCHING_KEY (JSON_stringify (JArr list2)) st)))))"

text \<open>
  \<open>removeEpisodeProgress\<close>; the callback is \<open>item => item.movieId !== movieId\<close>, and the
  host is sent the list as it was before the removal.
\<close>

definition removeEpisodeProgress :: "jsval \<Rightarrow> state \<Rightarrow> error option \<times> state" where
  "removeEpisodeProgress movieId st =
     (let list = getContinueWatchingList st in
      case js_filter (\<lambda>item. map_sum id Not (has_movieId movieId item)) list of
        Inl e \<Rightarrow> (Some e, st)
      | Inr updatedList \<Rightarrow>
          (None, notifyHost list
                   (setItem CONTINUE_WATCHING_KEY (JSON_stringify (JArr updatedList)) st)))"

text \<open>\<open>getSavedEpisode\<close>: \<open>list.find(...) || null\<close>.\<close>

definition getSavedEpisode :: "jsval \<Rightarrow> state \<Rightarrow> error + json" where
  "getSavedEpisode movieId st =
     (case js_find (has_movieId movieId) (getContinueWatchingList st) of
        Inl e \<Rightarrow> Inl e
      | Inr found \<Rightarrow>
          Inr (case found of None \<Rightarrow> JNull | Some v \<Rightarrow> if truthy (Some v) then v else JNull))"

text \<open>
  The stores the script produces: every entry is a stored record, not \<open>null\<close> (on a
  \<open>null\<close> entry the callbacks raise), and there are at most 15 of them. The empty store
  is such a store and \<open>saveEpisodeProgress\<close> and \<open>removeEpisodeProgress\<close> keep it so.
\<close>

definition records_only :: "state \<Rightarrow> bool" where
  "records_only st = (JNull \<notin> set (getContinueWatchingList st))"

definition store_inv :: "state \<Rightarrow> bool" where
  "store_inv st = (records_only st \<and> length (getContinueWatchingList st) \<le> 15)"

text \<open>The \<open>movieId\<close> of a stored record, and whether an id occurs in a list.\<close>

definition movieId_of :: "json \<Rightarrow> jsval" where
  "movieId_of item = (case get_prop (Some item) ''movieId'' of Inl e \<Rightarrow> None | Inr v \<Rightarrow> v)"

definition id_present :: "jsval \<Rightarrow> json list \<Rightarrow> bool" where
  "id_present movieId list = list_ex (\<lambda>item. strict_eq (movieId_of item) movieId) list"

section \<open>Merging a saved record with a fresh one\<close>

definition zeroProgress :: json where
  "zeroProgress = JObj [(''inMinutes'', JNum 0), (''inPercentage'', JNum 0)]"

text \<open>
  \<open>mergeSavedWithFreshEpisode\<close>: the fresh record as it is when either argument is falsy;
  else a copy of the fresh record whose \<open>continueWatching\<close> is the saved one, or the zero
  progress when the saved record has none.
\<close>

definition mergeSavedWithFreshEpisode :: "jsval \<Rightarrow> jsval \<Rightarrow> error + jsval" where
  "mergeSavedWithFreshEpisode savedEpisode freshEpisode =
     (if \<not> truthy savedEpisode \<or> \<not> truthy freshEpisode then Inr freshEpisode
      else case get_prop savedEpisode ''continueWatching'' of
        Inl e \<Rightarrow> Inl e
      | Inr cw \<Rightarrow>
          (let preservedContinueWatching =
                 (case cw of
                    None \<Rightarrow> zeroProgress
                  | Some v \<Rightarrow> if truthy (Some v) then v else zeroProgress)
           in Inr (Some (JObj (AList.update ''continueWatching'' preservedContinueWatching
                                (spread freshEpisode))))))"

section \<open>Removing the completed records\<close>

text \<open>
  Three conversions of the language are parameters of the model. Two have results that
  are doubles rounded by the engine: the number a string denotes when it is an operand of
  \<open>>\<close> (\<open>StringToNumber\<close>), and \<open>parseInt\<close> where it is not exact, on a number that
  prints in exponent notation and on a digit string beyond \<open>2^53\<close> (\<open>parseInt_inexact\<close>).
  The third is the removal of the leading white space and line terminators that
  \<open>parseInt\<close> starts with (\<open>skipWhiteSpace\<close>): besides the ASCII ones they are the no-break
  space, the byte order mark, the Unicode space separators and the line and paragraph
  separators, and what they look like in a string depends on how its characters are
  encoded.
\<close>

record runtime =
  StringToNumber :: "string \<Rightarrow> number"
  parseInt_inexact :: "json \<Rightarrow> number"
  skipWhiteSpace :: "string \<Rightarrow> string"

definition isDigit :: "char \<Rightarrow> bool" where
  "isDigit c = (48 \<le> (of_char c :: nat) \<and> (of_char c :: nat) \<le> 57)"

definition digitsValue :: "string \<Rightarrow> nat" where
  "digitsValue Z = foldl (\<lambda>a c. 10 * a + (of_char c - 48)) 0 Z"

text \<open>
  \<open>parseInt(s, 10)\<close> on a string: the leading white space is removed, then come one
  optional sign and the longest run of decimal digits; NaN without a digit.
\<close>

definition parseInt_string :: "runtime \<Rightarrow> string \<Rightarrow> number" where
  "parseInt_string rt s =
     (let S = skipWhiteSpace rt s;
          negative = (case S of c # cs \<Rightarrow> c = CHR ''-'' | [] \<Rightarrow> False);
          S' = (case S of c # cs \<Rightarrow> if c = CHR ''+'' \<or> c = CHR ''-'' then cs else S | [] \<Rightarrow> S);
          Z = takeWhile isDigit S'
      in if Z = [] then NaN
         else if digitsValue Z \<le> 2 ^ 53
         then Finite (if negative then - real (digitsValue Z) else real (digitsValue Z))
         else parseInt_inexact rt (JStr s))"

text \<open>
  \<open>parseInt(v, 10)\<close> on a JSON value, which is converted to a string first. A number
  between \<open>10^-6\<close> and \<open>10^21\<close> in absolute value prints in decimal notation and parses to its
  integer part; \<open>true\<close>, \<open>null\<close> and an object print as words; an array prints its elements
  between commas, so only its first element is read.
\<close>

fun parseInt10 :: "runtime \<Rightarrow> json \<Rightarrow> number" where
  "parseInt10 rt (JStr s) = parseInt_string rt s"
| "parseInt10 rt (JNum r) =
     (if r = 0 \<or> (1 / 10 ^ 6 \<le> \<bar>r\<bar> \<and> \<bar>r\<bar> < 10 ^ 21)
      then Finite (of_int (if 0 \<le> r then \<lfloor>r\<rfloor> else \<lceil>r\<rceil>))
      else parseInt_inexact rt (JNum r))"
| "parseInt10 rt (JBool b) = NaN"
| "parseInt10 rt JNull = NaN"
| "parseInt10 rt (JObj kvs) = NaN"
| "parseInt10 rt (JArr []) = NaN"
| "parseInt10 rt (JArr (x # xs)) = (if x = JNull then NaN else parseInt10 rt x)"

text \<open>
  The number a JSON value is converted to when it is compared with a number. An array is
  converted through the string of its elements: the empty array gives 0, an array of one
  element the number of that element's string, a longer one NaN.
\<close>

fun ToNumber :: "runtime \<Rightarrow> json \<Rightarrow> number" where
  "ToNumber rt (JNum r) = Finite r"
| "ToNumber rt (JBool b) = Finite (if b then 1 else 0)"
| "ToNumber rt JNull = Finite 0"
| "ToNumber rt (JStr s) = StringToNumber rt s"
| "ToNumber rt (JObj kvs) = NaN"
| "ToNumber rt (JArr []) = Finite 0"
| "ToNumber rt (JArr [x]) =
     (case x of
        JNull \<Rightarrow> Finite 0
      | JBool b \<Rightarrow> NaN
      | JObj kvs \<Rightarrow> NaN
      | _ \<Rightarrow> ToNumber rt x)"
| "ToNumber rt (JArr (x # y # zs)) = NaN"

text \<open>
  The pieces of the filter callback of \<open>cleanupCompletedMovies\<close>.
  \<open>watchedMinutesOf cw\<close> is \<open>cw.inMinutes || 0\<close> for a truthy \<open>cw\<close>;
  \<open>endTimeOf rt item\<close> is \<open>item.time?.endTime ? parseInt(item.time.endTime, 10) : null\<close>,
  with \<open>None\<close> for \<open>null\<close>.
\<close>

definition watchedMinutesOf :: "jsval \<Rightarrow> error + json" where
  "watchedMinutesOf cw =
     (case get_prop cw ''inMinutes'' of
        Inl e \<Rightarrow> Inl e
      | Inr m \<Rightarrow> Inr (case m of None \<Rightarrow> JNum 0 | Some v \<Rightarrow> if truthy (Some v) then v else JNum 0))"

definition endTimeOf :: "runtime \<Rightarrow> json \<Rightarrow> error + number option" where
  "endTimeOf rt item =
     (case get_prop (Some item) ''time'' of
        Inl e \<Rightarrow> Inl e
      | Inr time \<Rightarrow>
          if time = None \<or> time = Some JNull then Inr None
          else case get_prop time ''endTime'' of
            Inl e \<Rightarrow> Inl e
          | Inr None \<Rightarrow> Inr None
          | Inr (Some v) \<Rightarrow> Inr (if truthy (Some v) then Some (parseInt10 rt v) else None))"

text \<open>\<open>endTime && watchedMinutes > endTime\<close>: a zero and NaN are falsy.\<close>

definition watchedPastEndTime :: "runtime \<Rightarrow> number option \<Rightarrow> json \<Rightarrow> bool" where
  "watchedPastEndTime rt endTime watchedMinutes =
     (case endTime of
        None \<Rightarrow> False
      | Some n \<Rightarrow> number_truthy n \<and> number_gt (ToNumber rt watchedMinutes) n)"

text \<open>
  \<open>partName && partName.toLowerCase().includes('final')\<close>: a truthy value that is not a
  string has no \<open>toLowerCase\<close> method, and the call raises.
\<close>

definition isFinalPartOf :: "jsval \<Rightarrow> error + bool" where
  "isFinalPartOf partName =
     (if \<not> truthy partName then Inr False
      else case partName of
        Some (JStr s) \<Rightarrow> Inr (str_includes (toLowerCase s) ''final'')
      | _ \<Rightarrow> Inl TypeError)"

text \<open>The filter callback: \<open>True\<close> keeps the item, \<open>False\<close> removes it.\<close>

definition keepItem :: "runtime \<Rightarrow> json \<Rightarrow> error + bool" where
  "keepItem rt item =
     (case get_prop (Some item) ''continueWatching'' of
        Inl e \<Rightarrow> Inl e
      | Inr cw \<Rightarrow>
          if \<not> truthy cw then Inr True
          else case get_prop cw ''inPercentage'' of
            Inl e \<Rightarrow> Inl e
          | Inr (Some (JNum percentage)) \<Rightarrow>
              (case watchedMinutesOf cw of
                 Inl e \<Rightarrow> Inl e
               | Inr watchedMinutes \<Rightarrow>
                   (case endTimeOf rt item of
                      Inl e \<Rightarrow> Inl e
                    | Inr endTime \<Rightarrow>
                        (case get_prop (Some item) ''type'' of
                           Inl e \<Rightarrow> Inl e
                         | Inr type \<Rightarrow>
                             (case get_prop (Some item) ''partName'' of
                                Inl e \<Rightarrow> Inl e
                              | Inr partName \<Rightarrow>
                                  (let isOverNinetyPercent = (percentage > 90);
                                       isWatchedPastEndTime = watchedPastEndTime rt endTime watchedMinutes
                                   in if strict_eq type (Some (JStr ''M'')) \<and>
                                         (isOverNinetyPercent \<or> isWatchedPastEndTime)
                                      then Inr False
                                      else if strict_eq type (Some (JStr ''S''))
                                      then (case isFinalPartOf partName of
                                              Inl e \<Rightarrow> Inl e
                                            | Inr isFinalPart \<Rightarrow>
                                                if isFinalPart \<and> (isOverNinetyPercent \<or> isWatchedPastEndTime)
                                                then Inr False
                                                else if isOverNinetyPercent \<or> isWatchedPastEndTime
                                                then Inr False
                                                else Inr True)
                                      else Inr True)))))
          | Inr _ \<Rightarrow> Inr True)"

text \<open>
  \<open>cleanupCompletedMovies\<close> (the same in part_000 and part_002). The whole body is in a
  \<open>try\<close>, whose \<open>catch\<close> logs the error; the function returns nothing and raises nothing.
\<close>

definition cleanupCompletedMovies :: "runtime \<Rightarrow> state \<Rightarrow> state" where
  "cleanupCompletedMovies rt st =
     (let savedData = localStorage st CONTINUE_WATCHING_KEY in
      if \<not> text_truthy savedData then st
      else case savedData of
        None \<Rightarrow> st
      | Some t \<Rightarrow>
          (case JSON_parse t of
             Inl e \<Rightarrow> console_error ''Error cleaning up completed movies from localStorage:'' st
           | Inr (JArr continueWatchingList) \<Rightarrow>
               (case js_filter (keepItem rt) continueWatchingList of
                  Inl e \<Rightarrow> console_error ''Error cleaning up completed movies from localStorage:'' st
                | Inr filteredList \<Rightarrow>
                    (let removedCount = int (length continueWatchingList) - int (length filteredList)
                     in if removedCount > 0
                        then setItem CONTINUE_WATCHING_KEY (JSON_stringify (JArr filteredList)) st
                        else st))
           | Inr _ \<Rightarrow> st))"

section \<open>Switching to another episode\<close>

definition issue :: "command \<Rightarrow> state \<Rightarrow> state" where
  "issue c st = st\<lparr>commands := commands st @ [c]\<rparr>"

text \<open>\<open>clearInterval\<close> and \<open>cancelAnimationFrame\<close>: the timer is no longer live.\<close>

definition clearInterval :: "handle \<Rightarrow> state \<Rightarrow> state" where
  "clearInterval h st = issue (ClearInterval h) (st\<lparr>liveTimers := liveTimers st - {h}\<rparr>)"

definition cancelAnimationFrame :: "handle \<Rightarrow> state \<Rightarrow> state" where
  "cancelAnimationFrame h st = issue (CancelAnimationFrame h) (st\<lparr>liveTimers := liveTimers st - {h}\<rparr>)"

text \<open>
  The first block of \<open>switchToEpisode\<close>: the ad tracking variables are reset, which the
  sequence of commands records.
\<close>

definition resetAdTracking :: "state \<Rightarrow> state" where
  "resetAdTracking st =
     issue AdTrackingReset
       (st\<lparr>preAdShown := False, midAdShown := False, postAdShown := False, isAdPlaying := False,
           currentAdRegion := None, pendingAdType := None\<rparr>)"

text \<open>The second block: the timer of a pending ad countdown is cleared.\<close>

definition clearAdCountdown :: "state \<Rightarrow> state" where
  "clearAdCountdown st =
     (case adCountdownInterval st of
        Some h \<Rightarrow> (clearInterval h st)\<lparr>adCountdownInterval := None\<rparr>
      | None \<Rightarrow> st)"

text \<open>The third block: the timers of the card of the next episode are cleared.\<close>

definition clearNextEpisodeTimers :: "state \<Rightarrow> state" where
  "clearNextEpisodeTimers st =
     (let st1 = (case nextEpisodeCountdownTimer st of
                   Some h \<Rightarrow> (clearInterval h st)\<lparr>nextEpisodeCountdownTimer := None\<rparr>
                 | None \<Rightarrow> st)
      in case nextEpisodeBorderAnimation st1 of
           Some h \<Rightarrow> (cancelAnimationFrame h st1)\<lparr>nextEpisodeBorderAnimation := None\<rparr>
         | None \<Rightarrow> st1)"

text \<open>\<open>exitFullscreenIfNeeded\<close>: on iOS, in fullscreen, on the web.\<close>

definition exitFullscreenIfNeeded :: "state \<Rightarrow> state" where
  "exitFullscreenIfNeeded st =
     (if isIOS st \<and> fullscreen st \<and> device st = Some ''web''
      then (issue ExitFullscreen st)\<lparr>fullscreen := False\<rparr>
      else st)"

text \<open>
  \<open>playBlockedLollAd\<close>: with the ad plugin the ad is marked as playing and started at
  once, without a countdown (the controls it hides are a matter of style, not modelled).
\<close>

definition playBlockedLollAd :: "jsval \<Rightarrow> state \<Rightarrow> state" where
  "playBlockedLollAd adUrl st0 =
     (let st = exitFullscreenIfNeeded st0 in
      if adPlugin st
      then issue (AdUpdateVideoLink adUrl 86400 86400) (st\<lparr>isAdPlaying := True\<rparr>)
      else st)"

text \<open>\<open>allLolls[i]\<close>, which is \<open>undefined\<close> beyond the end of the array.\<close>

definition lollAt :: "state \<Rightarrow> nat \<Rightarrow> jsval" where
  "lollAt st i = (if i < length (allLolls st) then Some (allLolls st ! i) else None)"

text \<open>
  \<open>showLockOverlay\<close>: the player is paused and leaves fullscreen, the ad for blocked
  content is played when the active record has \<open>adstatus === true\<close>, and the lock layer is
  shown (the changes of style are the command \<open>ShowLockLayer\<close>).
\<close>

definition showLockOverlay :: "state \<Rightarrow> error option \<times> state" where
  "showLockOverlay st0 =
     (let st1 = issue Pause st0;
          st2 = (if device st1 = Some ''web''
                 then (issue ExitFullscreen st1)\<lparr>fullscreen := False\<rparr>
                 else issue (HostCall ''playerAction''
                        (JObj [(''action'', JStr ''fullscreen''), (''data'', JStr ''exit'')])) st1)
      in case get_prop (currentMovieData st2) ''adstatus'' of
           Inl e \<Rightarrow> (Some e, st2)
         | Inr adstatus \<Rightarrow>
             (let st3 = (if strict_eq adstatus (Some (JBool True))
                         then playBlockedLollAd (lollAt st2 3) st2 else st2)
              in (None, (issue ShowLockLayer st3)\<lparr>lockOverlayShown := True\<rparr>)))"

text \<open>
  The rest of \<open>switchToEpisode\<close> of part_002, from the update of the active record on. The
  callbacks given to the promise of \<open>art.switchUrl\<close> run later and are not part of the
  call. The first component of the result is the exception that escapes, if any.
\<close>

definition switchToRecord :: "jsval \<Rightarrow> state \<Rightarrow> error option \<times> state" where
  "switchToRecord ep st0 =
     (let st1 = st0\<lparr>currentMovieData := ep\<rparr> in
      case saveEpisodeProgress (currentMovieData st1) st1 of
        (Some e, st2) \<Rightarrow> (Some e, st2)
      | (None, st2) \<Rightarrow>
          (let savedUserQualityForSwitch = getUserQualityPreference st2 in
           case determinePlaybackQualityAndUrl_part002 (currentMovieData st2) savedUserQualityForSwitch st2 of
             (Inl e, st3) \<Rightarrow> (Some e, st3)
           | (Inr switchPlaybackInfo, st3) \<Rightarrow>
               (case get_prop ep ''locked'' of
                  Inl e \<Rightarrow> (Some e, st3\<lparr>activeQuality := []\<rparr>)
                | Inr locked \<Rightarrow>
                    (case switchPlaybackInfo of
                       Some (newUrl, quality) \<Rightarrow>
                         (let st4 = st3\<lparr>activeQuality := quality\<rparr> in
                          if truthy (Some newUrl)
                          then (case get_prop (currentMovieData st4) ''title'' of
                                  Inl e \<Rightarrow> (Some e, st4)
                                | Inr title \<Rightarrow> (None, issue (SwitchUrl newUrl title) st4))
                          else if truthy locked then showLockOverlay st4
                          else (None, console_error ''No valid Original URL for this episode'' st4))
                     | None \<Rightarrow>
                         (let st4 = st3\<lparr>activeQuality := []\<rparr> in
                          if \<not> truthy locked
                          then (None, issue (Notice ''Error: No playable video found for the selected episode.'')
                                        (console_error ''No valid URL for the selected episode.'' st4))
                          else showLockOverlay st4)))))"

text \<open>\<open>switchToEpisode\<close>: nothing without an episode; else the three blocks and the rest.\<close>

definition switchToEpisode :: "jsval \<Rightarrow> state \<Rightarrow> error option \<times> state" where
  "switchToEpisode ep st =
     (if \<not> truthy ep then (None, st)
      else switchToRecord ep (clearNextEpisodeTimers (clearAdCountdown (resetAdTracking st))))"

section \<open>The selection the specification describes\<close>

text \<open>
  The rendition of a tier is \<open>movieData.video[tier + 'Video']\<close>. It is valid when it is a
  string that is not empty and does not contain \<open>'not found'\<close>; it is plain when it is a
  string or a falsy value (a missing URL, \<open>null\<close>), which is what the backend sends.
\<close>

definition rendition :: "jsval \<Rightarrow> string \<Rightarrow> jsval" where
  "rendition movieData quality =
     (case get_prop movieData ''video'' of
        Inl e \<Rightarrow> None
      | Inr videoData \<Rightarrow>
          (case get_prop videoData (quality @ ''Video'') of Inl e \<Rightarrow> None | Inr url \<Rightarrow> url))"

definition valid_url :: "jsval \<Rightarrow> bool" where
  "valid_url url =
     (case url of Some (JStr s) \<Rightarrow> s \<noteq> [] \<and> \<not> str_includes s ''not found'' | _ \<Rightarrow> False)"

definition plain_url :: "jsval \<Rightarrow> bool" where
  "plain_url url = (case url of Some (JStr s) \<Rightarrow> True | _ \<Rightarrow> \<not> truthy url)"

text \<open>
  The selection as the specification words it: the preferred tier's URL when it is valid,
  else the first valid tier in the order High, Medium, Low.
\<close>

definition spec_select :: "jsval \<Rightarrow> string \<Rightarrow> (json \<times> string) option" where
  "spec_select movieData P =
     (case (if valid_url (rendition movieData P) then Some P
            else find (\<lambda>q. valid_url (rendition movieData q)) [''hd'', ''mid'', ''low'']) of
        None \<Rightarrow> None
      | Some q \<Rightarrow> map_option (\<lambda>u. (u, q)) (rendition movieData q))"

section \<open>The notions of the specification\<close>

text \<open>The progress a saved record carries: its \<open>continueWatching\<close>, when truthy.\<close>

definition savedProgress :: "jsval \<Rightarrow> json option" where
  "savedProgress savedEpisode =
     (case get_prop savedEpisode ''continueWatching'' of
        Inr (Some v) \<Rightarrow> if truthy (Some v) then Some v else None
      | _ \<Rightarrow> None)"

text \<open>
  For a stored record: the watched percentage, when the record has a truthy
  \<open>continueWatching\<close> whose \<open>inPercentage\<close> is a number; the watched time \<open>inMinutes\<close>, zero
  when missing; the end offset, when \<open>time.endTime\<close> is there and parses to a number
  other than zero; and the type.
\<close>

definition watchedPercent :: "json \<Rightarrow> real option" where
  "watchedPercent item =
     (case get_prop (Some item) ''continueWatching'' of
        Inl e \<Rightarrow> None
      | Inr cw \<Rightarrow>
          if truthy cw
          then (case get_prop cw ''inPercentage'' of Inr (Some (JNum p)) \<Rightarrow> Some p | _ \<Rightarrow> None)
          else None)"

definition watchedSeconds :: "json \<Rightarrow> json" where
  "watchedSeconds item =
     (case get_prop (Some item) ''continueWatching'' of
        Inl e \<Rightarrow> JNum 0
      | Inr cw \<Rightarrow> (case watchedMinutesOf cw of Inl e \<Rightarrow> JNum 0 | Inr m \<Rightarrow> m))"

definition endOffset :: "runtime \<Rightarrow> json \<Rightarrow> number option" where
  "endOffset rt item =
     (case endTimeOf rt item of
        Inr (Some n) \<Rightarrow> if number_truthy n then Some n else None
      | _ \<Rightarrow> None)"

definition itemType :: "json \<Rightarrow> jsval" where
  "itemType item = (case get_prop (Some item) ''type'' of Inl e \<Rightarrow> None | Inr t \<Rightarrow> t)"

text \<open>
  A record is completed when its watched percentage exceeds 90 or its watched time
  exceeds a defined end offset. Removal applies to the types \<open>'M'\<close> and \<open>'S'\<close>.
\<close>

definition completed :: "runtime \<Rightarrow> json \<Rightarrow> bool" where
  "completed rt item =
     (case watchedPercent item of
        None \<Rightarrow> False
      | Some p \<Rightarrow>
          p > 90 \<or>
          (case endOffset rt item of
             None \<Rightarrow> False
           | Some e \<Rightarrow> number_gt (ToNumber rt (watchedSeconds item)) e))"

definition movieOrSeries :: "json \<Rightarrow> bool" where
  "movieOrSeries item = (itemType item = Some (JStr ''M'') \<or> itemType item = Some (JStr ''S''))"

text \<open>The stored entries on which the filter callback raises.\<close>

definition raises :: "runtime \<Rightarrow> json \<Rightarrow> bool" where
  "raises rt item = (case keepItem rt item of Inl e \<Rightarrow> True | Inr b \<Rightarrow> False)"

text \<open>
  The part of the state that tracks ads and their timers, and the part that decides
  whether an ad is started; the functions called by \<open>switchToEpisode\<close> after its first
  blocks leave the former as it is.
\<close>

definition adView :: "state \<Rightarrow> bool \<times> bool \<times> bool \<times> adRegion option \<times> adRegion option \<times> handle option \<times> handle set" where
  "adView st = (preAdShown st, midAdShown st, postAdShown st, currentAdRegion st, pendingAdType st,
     adCountdownInterval st, liveTimers st)"

definition playView :: "state \<Rightarrow> bool \<times> bool \<times> jsval" where
  "playView st = (isAdPlaying st, adPlugin st, currentMovieData st)"

section \<open>Example data\<close>

text \<open>
  The globals as the script declares them, with an empty \<open>localStorage\<close>; and the record
  of the specification's scenario, whose High tier is the \<open>'not found'\<close> sentinel.
\<close>

definition init_state :: state where
  "init_state =
     \<lparr>localStorage = (\<lambda>k. None), console = [], videoType = ''m3u8'', tempData = Some (JObj []),
      device = None, preAdShown = False, midAdShown = False, postAdShown = False,
      isAdPlaying = False, currentAdRegion = None, pendingAdType = None,
      adCountdownInterval = None, nextEpisodeCountdownTimer = None,
      nextEpisodeBorderAnimation = None, liveTimers = {}, currentMovieData = None,
      activeQuality = [], adPlugin = True, allLolls = [], lockOverlayShown = False,
      fullscreen = False, isIOS = False, commands = []\<rparr>"

definition scenario_record :: json where
  "scenario_record =
     JObj [(''movieId'', JStr ''m1''),
           (''video'', JObj [(''hdVideo'', JStr ''not found''),
                             (''midVideo'', JStr ''http://x/mid.m3u8''),
                             (''lowVideo'', JStr ''http://x/low.m3u8'')])]"

definition mid_only_record :: json where
  "mid_only_record =
     JObj [(''movieId'', JStr ''m2''),
           (''video'', JObj [(''hdVideo'', JStr ''not found''),
                             (''midVideo'', JStr ''http://x/mid.m3u8''),
                             (''lowVideo'', JStr ''not found'')])]"

definition mp4_record :: json where
  "mp4_record =
     JObj [(''movieId'', JStr ''m3''),
           (''video'', JObj [(''hdVideo'', JStr ''not found''),
                             (''midVideo'', JStr ''not found''),
                             (''lowVideo'', JStr ''http://x/low.mp4'')])]"

text \<open>Stored records, a full store of fifteen of them, and a state whose store is a given list.\<close>

definition entry :: "string \<Rightarrow> json" where
  "entry i = JObj [(''movieId'', JStr i), (''title'', JStr ''t'')]"

definition full_store :: "json list" where
  "full_store =
     [entry ''e15'', entry ''e14'', entry ''e13'', entry ''e12'', entry ''e11'',
      entry ''e10'', entry ''e9'', entry ''e8'', entry ''e7'', entry ''e6'',
      entry ''e5'', entry ''e4'', entry ''e3'', entry ''e2'', entry ''e1'']"

definition store_state :: "json list \<Rightarrow> state" where
  "store_state xs = setItem CONTINUE_WATCHING_KEY (JSON_stringify (JArr xs)) init_state"

definition fresh_e2 :: json where
  "fresh_e2 =
     JObj [(''movieId'', JStr ''e2''), (''title'', JStr ''new''),
           (''video'', JObj [(''lowVideo'', JStr ''http://x/low.m3u8'')])]"

text \<open>A saved record with progress and the fresh record of the same title.\<close>

definition saved_m1 :: json where
  "saved_m1 = JObj [(''movieId'', JStr ''m1''),
     (''continueWatching'', JObj [(''inMinutes'', JNum 120), (''inPercentage'', JNum 40)])]"

definition fresh_m1 :: json where
  "fresh_m1 = JObj [(''movieId'', JStr ''m1''), (''locked'', JBool False),
     (''continueWatching'', JObj [(''inMinutes'', JNum 5), (''inPercentage'', JNum 10)]),
     (''video'', JObj [(''lowVideo'', JStr ''http://x/low.m3u8'')])]"

text \<open>
  An engine for the examples, none of which compares a string, parses inexactly or has
  white space before a number; stored records with a type, an end offset of 2400 seconds
  and given progress; a record with no progress; a record with no type, watched to 95
  percent; a movie watched past its end offset whose percentage is missing.
\<close>

definition example_runtime :: runtime where
  "example_runtime =
     \<lparr>StringToNumber = (\<lambda>s. NaN), parseInt_inexact = (\<lambda>v. NaN), skipWhiteSpace = (\<lambda>s. s)\<rparr>"

definition watched :: "string \<Rightarrow> string \<Rightarrow> real \<Rightarrow> real \<Rightarrow> json" where
  "watched i ty minutes percent =
     JObj [(''movieId'', JStr i), (''type'', JStr ty),
           (''time'', JObj [(''startTime'', JStr ''90''), (''endTime'', JStr ''2400'')]),
           (''continueWatching'', JObj [(''inMinutes'', JNum minutes), (''inPercentage'', JNum percent)])]"

definition no_progress :: json where
  "no_progress = JObj [(''movieId'', JStr ''n1''), (''type'', JStr ''M'')]"

definition typeless_record :: json where
  "typeless_record =
     JObj [(''movieId'', JStr ''x1''),
           (''continueWatching'', JObj [(''inMinutes'', JNum 100), (''inPercentage'', JNum 95)])]"

definition unmeasured :: json where
  "unmeasured =
     JObj [(''movieId'', JStr ''u1''), (''type'', JStr ''M''),
           (''time'', JObj [(''startTime'', JStr ''90''), (''endTime'', JStr ''2400'')]),
           (''continueWatching'', JObj [(''inMinutes'', JNum 2500)])]"

definition mixed_store :: "json list" where
  "mixed_store =
     [watched ''a'' ''M'' 100 95, watched ''b'' ''S'' 2500 50, watched ''c'' ''M'' 100 30,
      no_progress, typeless_record, unmeasured]"

text \<open>
  A locked episode with ads and no playable rendition, and a session on the web in which
  the PreRoll ad has been shown and the countdown of the MidRoll ad is pending on timer 7.
\<close>

definition locked_episode :: json where
  "locked_episode =
     JObj [(''movieId'', JStr ''e9''), (''title'', JStr ''Episode 9''),
           (''locked'', JBool True), (''adstatus'', JBool True),
           (''video'', JObj [(''hdVideo'', JStr ''not found''),
                             (''midVideo'', JStr ''not found''),
                             (''lowVideo'', JStr ''not found'')])]"

definition pending_state :: state where
  "pending_state =
     init_state\<lparr>device := Some ''web'', preAdShown := True, currentAdRegion := Some midLoll,
                pendingAdType := Some midLoll, adCountdownInterval := Some (Handle 7),
                liveTimers := {Handle 7},
                allLolls := [JStr ''http://x/pre.mp4'', JStr ''http://x/mid.mp4'',
                             JStr ''http://x/post.mp4'', JStr ''http://x/blocked.mp4'']\<rparr>"

section \<open>Properties of the ad regions\<close>

lemma getCurrentAdRegion_Finite:
  "getCurrentAdRegion (Finite p) =
     (if 19 \<le> p \<and> p < 49 then Some preLoll
      else if 55 \<le> p \<and> p \<le> 75 then Some midLoll
      else if 81 \<le> p \<and> p \<le> 100 then Some postLoll
      else None)"
  by (simp add: getCurrentAdRegion_def)

lemma getCurrentAdRegion_not_finite:
  "getCurrentAdRegion PosInf = None"
  "getCurrentAdRegion NegInf = None"
  "getCurrentAdRegion NaN = None"
  by (simp_all add: getCurrentAdRegion_def)

text \<open>
  Claim C3. For every percentage \<open>p\<close>, \<open>getCurrentAdRegion\<close> returns PreRoll exactly when
  \<open>19 \<le> p < 49\<close>, MidRoll exactly when \<open>55 \<le> p \<le> 75\<close>, PostRoll exactly when
  \<open>81 \<le> p \<le> 100\<close>, and \<open>null\<close> otherwise: on the gaps \<open>[49,55)\<close> and \<open>(75,81)\<close>, below
  19, above 100, and on the infinities and NaN. The boundary values of the specification
  are instances: 18.9, 19, 48.9, 49, 55 and 100.
\<close>

theorem getCurrentAdRegion_bounds:
  "(getCurrentAdRegion n = Some preLoll \<longleftrightarrow> (\<exists>p. n = Finite p \<and> 19 \<le> p \<and> p < 49)) \<and>
   (getCurrentAdRegion n = Some midLoll \<longleftrightarrow> (\<exists>p. n = Finite p \<and> 55 \<le> p \<and> p \<le> 75)) \<and>
   (getCurrentAdRegion n = Some postLoll \<longleftrightarrow> (\<exists>p. n = Finite p \<and> 81 \<le> p \<and> p \<le> 100)) \<and>
   (getCurrentAdRegion n = None \<longleftrightarrow>
      \<not> (\<exists>p. n = Finite p \<and> (19 \<le> p \<and> p < 49 \<or> 55 \<le> p \<and> p \<le> 75 \<or> 81 \<le> p \<and> p \<le> 100))) \<and>
   getCurrentAdRegion (Finite 18.9) = None \<and>
   getCurrentAdRegion (Finite 19) = Some preLoll \<and>
   getCurrentAdRegion (Finite 48.9) = Some preLoll \<and>
   getCurrentAdRegion (Finite 49) = None \<and>
   getCurrentAdRegion (Finite 55) = Some midLoll \<and>
   getCurrentAdRegion (Finite 100) = Some postLoll"
proof (cases n)
  case (Finite p)
  then show ?thesis
    by (simp add: getCurrentAdRegion_Finite)
qed (simp_all add: getCurrentAdRegion_not_finite getCurrentAdRegion_Finite)


section \<open>Properties of the rendition selection\<close>

lemma usable_plain:
  "plain_url url \<Longrightarrow> usable url = Inr (if valid_url url then url else None)"
  by (auto simp: plain_url_def usable_def valid_url_def split: option.splits json.splits)

lemma get_prop_truthy: "truthy v \<Longrightarrow> \<exists>u. get_prop v k = Inr u"
  by (cases "(v, k)" rule: get_prop.cases) auto

text \<open>On plain URLs the loop finds the first valid tier of the list it scans.\<close>

lemma scanQualities_plain:
  assumes "get_prop movieData ''video'' = Inr videoData" "truthy videoData"
    and "\<forall>q\<in>set qs. plain_url (rendition movieData q)"
  shows "scanQualities qs None videoData =
     Inr (case find (\<lambda>q. valid_url (rendition movieData q)) qs of
            None \<Rightarrow> None
          | Some q \<Rightarrow> map_option (\<lambda>u. (u, q)) (rendition movieData q))"
  using assms
proof (induction qs)
  case Nil
  then show ?case by simp
next
  case (Cons q qs)
  from Cons.prems(2) obtain url where url: "get_prop videoData (q @ ''Video'') = Inr url"
    using get_prop_truthy by blast
  with Cons.prems(1) have r: "rendition movieData q = url"
    by (simp add: rendition_def)
  with Cons.prems(3) have "plain_url url" by simp
  then have u: "usable url = Inr (if valid_url url then url else None)"
    by (rule usable_plain)
  show ?case
  proof (cases "valid_url url")
    case True
    then obtain j where "url = Some j" by (auto simp: valid_url_def split: option.splits)
    with True u url r show ?thesis by simp
  next
    case False
    with u url r Cons show ?thesis by simp
  qed
qed

text \<open>A record with a valid rendition has a \<open>video\<close> object.\<close>

lemma valid_url_video:
  assumes "valid_url (rendition movieData q)"
  shows "\<exists>videoData. get_prop movieData ''video'' = Inr videoData \<and> truthy videoData"
proof -
  from assms obtain s where s: "rendition movieData q = Some (JStr s)"
    by (auto simp: valid_url_def split: option.splits json.splits)
  then obtain videoData where v: "get_prop movieData ''video'' = Inr videoData"
    by (auto simp: rendition_def split: sum.splits)
  with s have "get_prop videoData (q @ ''Video'') = Inr (Some (JStr s))"
    by (auto simp: rendition_def split: sum.splits)
  then have "truthy videoData"
    by (cases "(videoData, q @ ''Video'')" rule: get_prop.cases) auto
  with v show ?thesis by blast
qed

lemma selectUrl_preferred:
  assumes v: "get_prop movieData ''video'' = Inr videoData" "truthy videoData"
    and P: "P \<noteq> []"
    and plain: "\<forall>q\<in>set (P # qualityOrder). plain_url (rendition movieData q)"
  shows "selectUrl dflt skip videoData (Some P) = Inr (spec_select movieData P)"
proof -
  from v(2) obtain url where url: "get_prop videoData (P @ ''Video'') = Inr url"
    using get_prop_truthy by blast
  with v(1) have r: "rendition movieData P = url" by (simp add: rendition_def)
  with plain have u: "usable url = Inr (if valid_url url then url else None)"
    by (simp add: usable_plain)
  from plain have "\<forall>q\<in>set qualityOrder. plain_url (rendition movieData q)" by simp
  from scanQualities_plain [OF v this]
  have scan: "scanQualities qualityOrder None videoData =
     Inr (case find (\<lambda>q. valid_url (rendition movieData q)) qualityOrder of
            None \<Rightarrow> None
          | Some q \<Rightarrow> map_option (\<lambda>u. (u, q)) (rendition movieData q))" .
  show ?thesis
  proof (cases "valid_url url")
    case True
    then obtain j where "url = Some j" by (auto simp: valid_url_def split: option.splits)
    with True u url r P show ?thesis
      by (simp add: selectUrl_def spec_select_def)
  next
    case False
    with u url r P scan show ?thesis
      by (simp add: selectUrl_def spec_select_def qualityOrder_def)
  qed
qed

text \<open>With a valid rendition the specified selection is a valid string URL and its tier.\<close>

lemma spec_select_Some:
  assumes "\<exists>q\<in>set qualityOrder. valid_url (rendition movieData q)"
  shows "\<exists>s q. spec_select movieData P = Some (JStr s, q) \<and> valid_url (Some (JStr s)) \<and>
           (q = P \<or> q \<in> set qualityOrder)"
proof (cases "valid_url (rendition movieData P)")
  case True
  then obtain s where "rendition movieData P = Some (JStr s)"
    by (auto simp: valid_url_def split: option.splits json.splits)
  with True show ?thesis by (simp add: spec_select_def)
next
  case False
  from assms obtain q where "find (\<lambda>q. valid_url (rendition movieData q)) qualityOrder = Some q"
    by (cases "find (\<lambda>q. valid_url (rendition movieData q)) qualityOrder") (auto simp: find_None_iff)
  moreover from this have q: "valid_url (rendition movieData q)" "q \<in> set qualityOrder"
    by (auto simp: find_Some_iff)
  then obtain s where "rendition movieData q = Some (JStr s)"
    by (auto simp: valid_url_def split: option.splits json.splits)
  ultimately show ?thesis using False q
    by (simp add: spec_select_def qualityOrder_def)
qed

lemma setVideoType_result:
  "q \<noteq> [] \<Longrightarrow> fst (setVideoType unknown (Some (JStr s, q)) st) = Inr (Some (JStr s, q))"
  by (simp add: setVideoType_def Let_def)

lemma setVideoType_localStorage:
  "localStorage (snd (setVideoType unknown selected st)) = localStorage st"
  by (auto simp: setVideoType_def Let_def console_error_def console_warn_def
      split: option.splits json.splits)

text \<open>The type \<open>setVideoType\<close> infers for a selected string URL.\<close>

lemma setVideoType_videoType:
  "videoType (snd (setVideoType unknown (Some (JStr s, q)) st)) =
     (if str_includes (toLowerCase s) ''.m3u8'' \<or> str_includes (toLowerCase s) ''.rebacdn1''
      then ''m3u8''
      else if str_includes (toLowerCase s) ''.mpd'' \<or> str_includes (toLowerCase s) ''.rebacdn2''
      then ''mpd'' else unknown)"
  by (simp add: setVideoType_def Let_def console_warn_def)

text \<open>
  In part_002 the inferred type of a selected string URL is never empty: it is \<open>'m3u8'\<close> or
  \<open>'mpd'\<close>, and \<open>'m3u8'\<close> when the URL names no known type.
\<close>

lemma videoType_part002:
  assumes "determinePlaybackQualityAndUrl_part002 movieData pq st = (Inr (Some (JStr s, q)), st')"
  shows "videoType st' =
     (if str_includes (toLowerCase s) ''.m3u8'' \<or> str_includes (toLowerCase s) ''.rebacdn1''
      then ''m3u8''
      else if str_includes (toLowerCase s) ''.mpd'' \<or> str_includes (toLowerCase s) ''.rebacdn2''
      then ''mpd'' else ''m3u8'')"
proof -
  from assms obtain sel where
    sel: "setVideoType ''m3u8'' sel (st\<lparr>tempData := movieData\<rparr>) = (Inr (Some (JStr s, q)), st')"
    by (auto simp: determinePlaybackQualityAndUrl_part002_def Let_def
        split: sum.splits if_splits)
  then have "sel = Some (JStr s, q)"
    by (auto simp: setVideoType_def Let_def split: option.splits json.splits if_splits)
  with sel setVideoType_videoType [of "''m3u8''" s q "st\<lparr>tempData := movieData\<rparr>"]
  show ?thesis by simp
qed

text \<open>
  Claim C1. Take a record with at least one valid rendition and a preferred tier \<open>P\<close> that
  is not \<open>null\<close>, the renditions being plain (strings or missing). A URL is valid when
  it passes the test of the code: a string that is not empty and does not contain
  \<open>'not found'\<close>. Then \<open>determinePlaybackQualityAndUrl\<close>, in part_002, part_001 and part_000
  alike, returns the URL of \<open>P\<close> with tier \<open>P\<close> when that URL is valid, and otherwise the
  first valid URL in the order High, Medium, Low with its tier; the result is a valid
  URL; and \<open>localStorage\<close>, which holds the stored preference, is the same after the call.
\<close>

theorem determinePlaybackQualityAndUrl_preferred:
  assumes "P \<noteq> []"
    and "\<forall>q\<in>set (P # qualityOrder). plain_url (rendition movieData q)"
    and "\<exists>q\<in>set qualityOrder. valid_url (rendition movieData q)"
  shows "fst (determinePlaybackQualityAndUrl_part002 movieData (Some P) st) = Inr (spec_select movieData P) \<and>
         fst (determinePlaybackQualityAndUrl_part001 movieData (Some P) st) = Inr (spec_select movieData P) \<and>
         fst (determinePlaybackQualityAndUrl_part000 movieData (Some P) st) = Inr (spec_select movieData P) \<and>
         (\<exists>s q. spec_select movieData P = Some (JStr s, q) \<and> valid_url (Some (JStr s))) \<and>
         localStorage (snd (determinePlaybackQualityAndUrl_part002 movieData (Some P) st)) = localStorage st \<and>
         localStorage (snd (determinePlaybackQualityAndUrl_part001 movieData (Some P) st)) = localStorage st \<and>
         localStorage (snd (determinePlaybackQualityAndUrl_part000 movieData (Some P) st)) = localStorage st"
proof -
  from assms(3) obtain videoData where
    v: "get_prop movieData ''video'' = Inr videoData" "truthy videoData"
    using valid_url_video by blast
  have sel: "selectUrl dflt skip videoData (Some P) = Inr (spec_select movieData P)" for dflt skip
    using v assms(1,2) by (rule selectUrl_preferred)
  from spec_select_Some [OF assms(3), of P] obtain s q where
    sq: "spec_select movieData P = Some (JStr s, q)" "valid_url (Some (JStr s))"
      "q = P \<or> q \<in> set qualityOrder"
    by blast
  from sq(3) assms(1) have q: "q \<noteq> []" by (auto simp: qualityOrder_def)
  have r2: "fst (determinePlaybackQualityAndUrl_part002 movieData (Some P) st) = Inr (spec_select movieData P)"
    using v sel sq(1) q
    by (simp add: determinePlaybackQualityAndUrl_part002_def Let_def setVideoType_result)
  have r1: "fst (determinePlaybackQualityAndUrl_part001 movieData (Some P) st) = Inr (spec_select movieData P)"
    using v sel sq(1) by (simp add: determinePlaybackQualityAndUrl_part001_def)
  have r0: "fst (determinePlaybackQualityAndUrl_part000 movieData (Some P) st) = Inr (spec_select movieData P)"
    using v sel sq(1) q
    by (simp add: determinePlaybackQualityAndUrl_part000_def setVideoType_result)
  have l2: "localStorage (snd (determinePlaybackQualityAndUrl_part002 movieData (Some P) st)) = localStorage st"
    using v sel by (simp add: determinePlaybackQualityAndUrl_part002_def Let_def setVideoType_localStorage)
  have l1: "localStorage (snd (determinePlaybackQualityAndUrl_part001 movieData (Some P) st)) = localStorage st"
    using v sel sq(1) by (simp add: determinePlaybackQualityAndUrl_part001_def)
  have l0: "localStorage (snd (determinePlaybackQualityAndUrl_part000 movieData (Some P) st)) = localStorage st"
    using v sel by (simp add: determinePlaybackQualityAndUrl_part000_def setVideoType_localStorage)
  from r2 r1 r0 sq(1,2) l2 l1 l0 show ?thesis by blast
qed

text \<open>
  The scenario of the specification: High is \<open>'not found'\<close>, the stored preference is
  \<open>'hd'\<close>; the Medium URL is selected, the inferred type is \<open>'m3u8'\<close> and the stored
  preference is still \<open>'hd'\<close>.
\<close>

theorem determinePlaybackQualityAndUrl_preferred_witness:
  "''hd'' \<noteq> [] \<and>
   list_all (\<lambda>q. plain_url (rendition (Some scenario_record) q)) (''hd'' # qualityOrder) \<and>
   list_ex (\<lambda>q. valid_url (rendition (Some scenario_record) q)) qualityOrder \<and>
   fst (determinePlaybackQualityAndUrl_part002 (Some scenario_record) (Some ''hd'')
          (saveUserQualityPreference ''hd'' init_state))
     = Inr (Some (JStr ''http://x/mid.m3u8'', ''mid'')) \<and>
   fst (determinePlaybackQualityAndUrl_part001 (Some scenario_record) (Some ''hd'')
          (saveUserQualityPreference ''hd'' init_state))
     = Inr (Some (JStr ''http://x/mid.m3u8'', ''mid'')) \<and>
   getUserQualityPreference (snd (determinePlaybackQualityAndUrl_part002 (Some scenario_record) (Some ''hd'')
          (saveUserQualityPreference ''hd'' init_state))) = Some ''hd''"
proof -
  have h1: "''hd'' \<noteq> []" by simp
  have h2: "\<forall>q\<in>set (''hd'' # qualityOrder). plain_url (rendition (Some scenario_record) q)"
    by (simp add: qualityOrder_def plain_url_def rendition_def scenario_record_def)
  have h3: "\<exists>q\<in>set qualityOrder. valid_url (rendition (Some scenario_record) q)"
    by (simp add: qualityOrder_def valid_url_def rendition_def scenario_record_def)
  have sp: "spec_select (Some scenario_record) ''hd'' = Some (JStr ''http://x/mid.m3u8'', ''mid'')"
    by (simp add: spec_select_def valid_url_def rendition_def scenario_record_def)
  have pref: "getUserQualityPreference (saveUserQualityPreference ''hd'' init_state) = Some ''hd''"
    by (simp add: getUserQualityPreference_def saveUserQualityPreference_def)
  from determinePlaybackQualityAndUrl_preferred [OF h1 h2 h3,
      of "saveUserQualityPreference ''hd'' init_state"] h2 h3 sp pref
  show ?thesis
    by (simp add: getUserQualityPreference_def list_all_iff list_ex_iff)
qed

text \<open>
  With no preference, part_000 plays the Low rendition when it is valid, and stores
  nothing.
\<close>

lemma part000_default_low:
  assumes "valid_url (rendition movieData ''low'')"
  shows "\<exists>s. rendition movieData ''low'' = Some (JStr s) \<and>
           fst (determinePlaybackQualityAndUrl_part000 movieData None st) = Inr (Some (JStr s, ''low'')) \<and>
           localStorage (snd (determinePlaybackQualityAndUrl_part000 movieData None st)) = localStorage st"
proof -
  from assms obtain videoData where
    v: "get_prop movieData ''video'' = Inr videoData" "truthy videoData"
    using valid_url_video by blast
  from assms obtain s where s: "rendition movieData ''low'' = Some (JStr s)"
    by (auto simp: valid_url_def split: option.splits json.splits)
  with v have g: "get_prop videoData ''lowVideo'' = Inr (Some (JStr s))"
    by (auto simp: rendition_def split: sum.splits)
  from assms s have u: "usable (Some (JStr s)) = Inr (Some (JStr s))"
    by (simp add: usable_def valid_url_def)
  have sel: "selectUrl ''low'' ''mid'' videoData None = Inr (Some (JStr s, ''low''))"
    using g u by (simp add: selectUrl_def)
  from v sel s show ?thesis
    by (simp add: determinePlaybackQualityAndUrl_part000_def setVideoType_result setVideoType_localStorage)
qed

text \<open>
  Claim C2. With no stored preference the latest revision (part_000) tries Low first and
  then scans High, Medium, Low skipping the tier already tried. The code skips \<open>'mid'\<close>
  instead of \<open>'low'\<close>: for a record whose only valid rendition is Medium and no preference
  it returns \<open>null\<close>, where the claim promises the Medium URL.
\<close>

theorem determinePlaybackQualityAndUrl_part000_misses_mid:
  "valid_url (rendition (Some mid_only_record) ''mid'') \<and>
   \<not> valid_url (rendition (Some mid_only_record) ''low'') \<and>
   \<not> valid_url (rendition (Some mid_only_record) ''hd'') \<and>
   fst (determinePlaybackQualityAndUrl_part000 (Some mid_only_record) None init_state) = Inr None"
  by (simp add: determinePlaybackQualityAndUrl_part000_def selectUrl_def usable_def
      qualityOrder_def setVideoType_def valid_url_def rendition_def mid_only_record_def)

text \<open>
  Claim C8. The inferred type is \<open>'m3u8'\<close> or \<open>'mpd'\<close> by the markers in the lower-cased
  URL, and \<open>'m3u8'\<close> with a warning otherwise, so it is never empty. Part_002 does so (lemma
  \<open>videoType_part002\<close>); part_000 logs the warning that it defaults to \<open>'m3u8'\<close> and leaves
  \<open>videoType\<close> empty: for a record whose Low rendition is an MP4 link and no preference, the
  link is selected and the inferred type is the empty string.
\<close>

theorem determinePlaybackQualityAndUrl_part000_empty_videoType:
  "fst (determinePlaybackQualityAndUrl_part000 (Some mp4_record) None init_state)
     = Inr (Some (JStr ''http://x/low.mp4'', ''low'')) \<and>
   videoType (snd (determinePlaybackQualityAndUrl_part000 (Some mp4_record) None init_state)) = [] \<and>
   console (snd (determinePlaybackQualityAndUrl_part000 (Some mp4_record) None init_state))
     = [LogWarn ''Unknown video type for selected URL. Defaulting to 'm3u8'.''] \<and>
   videoType (snd (determinePlaybackQualityAndUrl_part002 (Some mp4_record) (Some ''low'') init_state))
     = ''m3u8''"
  by (simp add: determinePlaybackQualityAndUrl_part000_def determinePlaybackQualityAndUrl_part002_def
      selectUrl_def usable_def qualityOrder_def setVideoType_def Let_def toLowerCase_def lowerChar_def
      console_warn_def mp4_record_def init_state_def)

section \<open>Properties of the continue-watching list\<close>

lemma list_store [simp]:
  "getContinueWatchingList (setItem CONTINUE_WATCHING_KEY (JSON_stringify (JArr xs)) st) = xs"
  by (simp add: getContinueWatchingList_def setItem_def JSON_stringify_def)

lemma list_notifyHost [simp]:
  "getContinueWatchingList (notifyHost l st) = getContinueWatchingList st"
  by (simp add: getContinueWatchingList_def notifyHost_def)

lemma has_movieId_nonnull:
  "item \<noteq> JNull \<Longrightarrow> has_movieId movieId item = Inr (strict_eq (movieId_of item) movieId)"
  by (cases item) (simp_all add: has_movieId_def movieId_of_def)

lemma findIndex_records:
  assumes "JNull \<notin> set xs"
  shows "findIndex (has_movieId movieId) xs =
     Inr (if id_present movieId xs
          then Some (length (takeWhile (\<lambda>item. \<not> strict_eq (movieId_of item) movieId) xs))
          else None)"
  using assms
  by (induction xs) (auto simp: has_movieId_nonnull id_present_def)

lemma js_find_records:
  assumes "JNull \<notin> set xs"
  shows "js_find (has_movieId movieId) xs = Inr (find (\<lambda>item. strict_eq (movieId_of item) movieId) xs)"
  using assms
  by (induction xs) (auto simp: has_movieId_nonnull)

lemma id_object:
  assumes "get_prop episodeData ''movieId'' = Inr movieId" "truthy movieId"
  shows "\<exists>kvs. episodeData = Some (JObj kvs)"
  using assms by (cases "(episodeData, ''movieId'')" rule: get_prop.cases) auto

lemma saveEpisodeProgress_records:
  assumes "get_prop episodeData ''movieId'' = Inr movieId" "truthy movieId"
    and "records_only st"
  shows "fst (saveEpisodeProgress episodeData st) = None"
    and "getContinueWatchingList (snd (saveEpisodeProgress episodeData st)) =
      take 15 (if id_present movieId (getContinueWatchingList st)
        then (getContinueWatchingList st)
               [length (takeWhile (\<lambda>item. \<not> strict_eq (movieId_of item) movieId) (getContinueWatchingList st))
                  := dataToStore episodeData]
        else dataToStore episodeData # getContinueWatchingList st)"
proof -
  from assms(1,2) have t: "truthy episodeData"
    using id_object by fastforce
  from assms(3) have n: "JNull \<notin> set (getContinueWatchingList st)"
    by (simp add: records_only_def)
  show "fst (saveEpisodeProgress episodeData st) = None"
    using t assms(1,2) findIndex_records [OF n, of movieId]
    by (simp add: saveEpisodeProgress_def Let_def)
  show "getContinueWatchingList (snd (saveEpisodeProgress episodeData st)) =
      take 15 (if id_present movieId (getContinueWatchingList st)
        then (getContinueWatchingList st)
               [length (takeWhile (\<lambda>item. \<not> strict_eq (movieId_of item) movieId) (getContinueWatchingList st))
                  := dataToStore episodeData]
        else dataToStore episodeData # getContinueWatchingList st)"
    using t assms(1,2) findIndex_records [OF n, of movieId]
    by (simp add: saveEpisodeProgress_def Let_def)
qed

text \<open>On a store whose first entry is \<open>null\<close> the search for the id raises; nothing is stored.\<close>

lemma saveEpisodeProgress_null_entry:
  assumes "get_prop episodeData ''movieId'' = Inr movieId" and "truthy movieId"
    and "getContinueWatchingList st = JNull # xs"
  shows "saveEpisodeProgress episodeData st = (Some TypeError, st)"
proof -
  from assms(1,2) have "truthy episodeData" using id_object by fastforce
  with assms show ?thesis
    by (simp add: saveEpisodeProgress_def has_movieId_def)
qed

lemma takeWhile_index:
  assumes "list_ex P xs"
  shows "length (takeWhile (\<lambda>x. \<not> P x) xs) < length xs"
    and "P (xs ! length (takeWhile (\<lambda>x. \<not> P x) xs))"
    and "\<forall>j<length (takeWhile (\<lambda>x. \<not> P x) xs). \<not> P (xs ! j)"
  using assms
proof (induction xs)
  case Nil
  { case 1 then show ?case by simp }
  { case 2 then show ?case by simp }
  { case 3 then show ?case by simp }
next
  case (Cons x xs)
  { case 1 with Cons.IH(1) show ?case by auto }
  { case 2 with Cons.IH(2) show ?case by auto }
  { case 3 with Cons.IH(3) show ?case by (auto simp: less_Suc_eq_0_disj) }
qed

lemma find_update_first:
  assumes "list_ex P xs" "P d"
  shows "find P (xs[length (takeWhile (\<lambda>x. \<not> P x) xs) := d]) = Some d"
  using assms by (induction xs) auto

lemma movieId_of_dataToStore:
  assumes "get_prop episodeData ''movieId'' = Inr movieId" "truthy movieId"
  shows "movieId_of (dataToStore episodeData) = movieId"
proof -
  from assms obtain kvs where k: "episodeData = Some (JObj kvs)"
    using id_object by blast
  with assms(1) show ?thesis
    by (simp add: movieId_of_def dataToStore_def delete_conv)
qed

lemma dataToStore_no_video:
  "get_prop (Some (dataToStore episodeData)) ''video'' = Inr None"
  by (simp add: dataToStore_def delete_conv)

lemma dataToStore_rendition: "rendition (Some (dataToStore episodeData)) q = None"
  by (simp add: rendition_def dataToStore_no_video)

lemma dataToStore_other:
  assumes "episodeData = Some (JObj kvs)" "k \<noteq> ''video''"
  shows "get_prop (Some (dataToStore episodeData)) k = get_prop episodeData k"
  using assms by (simp add: dataToStore_def delete_conv)

lemma js_filter_subset:
  "js_filter p xs = Inr ys \<Longrightarrow> set ys \<subseteq> set xs \<and> length ys \<le> length xs"
proof (induction xs arbitrary: ys)
  case Nil
  then show ?case by simp
next
  case (Cons x xs)
  then show ?case
    by (fastforce split: sum.splits if_splits)
qed

lemma store_inv_init: "store_inv init_state"
  by (simp add: store_inv_def records_only_def getContinueWatchingList_def init_state_def)

lemma store_inv_saveEpisodeProgress:
  assumes "store_inv st"
  shows "store_inv (snd (saveEpisodeProgress episodeData st))"
proof (cases "\<exists>movieId. get_prop episodeData ''movieId'' = Inr movieId \<and> truthy movieId")
  case True
  then obtain movieId where m: "get_prop episodeData ''movieId'' = Inr movieId" "truthy movieId"
    by blast
  from assms have ro: "records_only st" by (simp add: store_inv_def)
  note r = saveEpisodeProgress_records(2) [OF m ro]
  have "set (getContinueWatchingList (snd (saveEpisodeProgress episodeData st)))
      \<subseteq> insert (dataToStore episodeData) (set (getContinueWatchingList st))"
  proof (cases "id_present movieId (getContinueWatchingList st)")
    case True
    with r have "set (getContinueWatchingList (snd (saveEpisodeProgress episodeData st)))
        \<subseteq> set ((getContinueWatchingList st)
              [length (takeWhile (\<lambda>item. \<not> strict_eq (movieId_of item) movieId) (getContinueWatchingList st))
                  := dataToStore episodeData])"
      by (simp add: set_take_subset)
    then show ?thesis using set_update_subset_insert by fastforce
  next
    case False
    with r show ?thesis
      using set_take_subset [of 15 "dataToStore episodeData # getContinueWatchingList st"] by simp
  qed
  moreover have "dataToStore episodeData \<noteq> JNull" by (simp add: dataToStore_def)
  ultimately have "JNull \<notin> set (getContinueWatchingList (snd (saveEpisodeProgress episodeData st)))"
    using ro by (auto simp: records_only_def)
  moreover from r have "length (getContinueWatchingList (snd (saveEpisodeProgress episodeData st))) \<le> 15"
    by simp
  ultimately show ?thesis by (simp add: store_inv_def records_only_def)
next
  case False
  then have "snd (saveEpisodeProgress episodeData st) = st"
    by (auto simp: saveEpisodeProgress_def split: sum.splits)
  with assms show ?thesis by simp
qed

lemma store_inv_removeEpisodeProgress:
  assumes "store_inv st"
  shows "store_inv (snd (removeEpisodeProgress movieId st))"
proof (cases "js_filter (\<lambda>item. map_sum id Not (has_movieId movieId item)) (getContinueWatchingList st)")
  case (Inl e)
  with assms show ?thesis by (simp add: removeEpisodeProgress_def)
next
  case (Inr ys)
  from js_filter_subset [OF Inr] assms have "JNull \<notin> set ys" "length ys \<le> 15"
    by (auto simp: store_inv_def records_only_def)
  with Inr show ?thesis
    by (simp add: removeEpisodeProgress_def store_inv_def records_only_def)
qed

text \<open>
  Claim C4. For a record with an id and a store whose entries are records,
  \<open>saveEpisodeProgress\<close> followed by \<open>getContinueWatchingList\<close> yields at most 15 entries,
  whatever the length of the stored list was. A record whose id is not yet present is put
  at the front, before the entries that were there, in their order, and the list is cut
  to its first 15 entries: inserted into a full store of 15, the new record is followed
  by the 14 most recent entries and the last, oldest entry is dropped.
\<close>

theorem saveEpisodeProgress_most_recent_first:
  assumes "get_prop episodeData ''movieId'' = Inr movieId" and "truthy movieId"
    and "records_only st"
  shows "fst (saveEpisodeProgress episodeData st) = None \<and>
    length (getContinueWatchingList (snd (saveEpisodeProgress episodeData st))) \<le> 15 \<and>
    (\<not> id_present movieId (getContinueWatchingList st) \<longrightarrow>
       getContinueWatchingList (snd (saveEpisodeProgress episodeData st)) =
         take 15 (dataToStore episodeData # getContinueWatchingList st)) \<and>
    (\<not> id_present movieId (getContinueWatchingList st) \<and> length (getContinueWatchingList st) = 15 \<longrightarrow>
       getContinueWatchingList (snd (saveEpisodeProgress episodeData st)) =
         dataToStore episodeData # butlast (getContinueWatchingList st))"
proof -
  note r = saveEpisodeProgress_records [OF assms]
  have b: "take 15 (d # xs) = d # butlast xs" if "length xs = 15" for d :: json and xs
    using that by (simp add: butlast_conv_take take_Cons')
  from r(2) have "length (getContinueWatchingList (snd (saveEpisodeProgress episodeData st))) \<le> 15"
    by simp
  with r b show ?thesis by simp
qed

theorem saveEpisodeProgress_most_recent_first_witness:
  "get_prop (Some scenario_record) ''movieId'' = Inr (Some (JStr ''m1'')) \<and>
   truthy (Some (JStr ''m1'')) \<and>
   records_only (store_state full_store) \<and>
   length full_store = 15 \<and>
   \<not> id_present (Some (JStr ''m1'')) full_store \<and>
   getContinueWatchingList (snd (saveEpisodeProgress (Some scenario_record) (store_state full_store)))
     = [JObj [(''movieId'', JStr ''m1'')],
        entry ''e15'', entry ''e14'', entry ''e13'', entry ''e12'', entry ''e11'',
        entry ''e10'', entry ''e9'', entry ''e8'', entry ''e7'', entry ''e6'',
        entry ''e5'', entry ''e4'', entry ''e3'', entry ''e2'']"
proof -
  have l: "getContinueWatchingList (store_state full_store) = full_store"
    by (simp add: store_state_def)
  have h1: "get_prop (Some scenario_record) ''movieId'' = Inr (Some (JStr ''m1''))"
    by (simp add: scenario_record_def)
  have h2: "truthy (Some (JStr ''m1''))" by simp
  have h3: "records_only (store_state full_store)"
    by (simp add: records_only_def l) (simp add: full_store_def entry_def)
  have h4: "\<not> id_present (Some (JStr ''m1'')) full_store"
    by (simp add: id_present_def full_store_def entry_def movieId_of_def strict_eq_def)
  have h5: "length full_store = 15" by (simp add: full_store_def)
  have d: "dataToStore (Some scenario_record) = JObj [(''movieId'', JStr ''m1'')]"
    by (simp add: dataToStore_def scenario_record_def AList.delete_eq)
  have b: "butlast full_store = [entry ''e15'', entry ''e14'', entry ''e13'', entry ''e12'', entry ''e11'',
        entry ''e10'', entry ''e9'', entry ''e8'', entry ''e7'', entry ''e6'',
        entry ''e5'', entry ''e4'', entry ''e3'', entry ''e2'']"
    by (simp add: full_store_def)
  have "getContinueWatchingList (snd (saveEpisodeProgress (Some scenario_record) (store_state full_store)))
      = dataToStore (Some scenario_record) # butlast full_store"
    using saveEpisodeProgress_most_recent_first [OF h1 h2 h3] h4 h5 l by (simp add: butlast_conv_take)
  with h1 h2 h3 h4 h5 d b show ?thesis by simp
qed

text \<open>
  Claim C10. For a store the script produces and a record whose id occurs in the list,
  \<open>saveEpisodeProgress\<close> replaces the first entry with that id, at its index \<open>i\<close>: the new
  list is the old one with the stored copy at \<open>i\<close>, every other entry is at its position
  unchanged, and the length is the same. The entry is not moved to the front.
\<close>

theorem saveEpisodeProgress_in_place:
  assumes "get_prop episodeData ''movieId'' = Inr movieId" and "truthy movieId"
    and "store_inv st"
    and "id_present movieId (getContinueWatchingList st)"
  shows "\<exists>i<length (getContinueWatchingList st).
      strict_eq (movieId_of (getContinueWatchingList st ! i)) movieId \<and>
      (\<forall>j<i. \<not> strict_eq (movieId_of (getContinueWatchingList st ! j)) movieId) \<and>
      getContinueWatchingList (snd (saveEpisodeProgress episodeData st)) =
        (getContinueWatchingList st)[i := dataToStore episodeData] \<and>
      getContinueWatchingList (snd (saveEpisodeProgress episodeData st)) ! i = dataToStore episodeData \<and>
      (\<forall>j<length (getContinueWatchingList st). j \<noteq> i \<longrightarrow>
         getContinueWatchingList (snd (saveEpisodeProgress episodeData st)) ! j = getContinueWatchingList st ! j) \<and>
      length (getContinueWatchingList (snd (saveEpisodeProgress episodeData st))) = length (getContinueWatchingList st)"
proof -
  let ?xs = "getContinueWatchingList st"
  let ?P = "\<lambda>item. strict_eq (movieId_of item) movieId"
  let ?i = "length (takeWhile (\<lambda>item. \<not> ?P item) ?xs)"
  from assms(3) have ro: "records_only st" and len: "length ?xs \<le> 15"
    by (simp_all add: store_inv_def)
  from assms(4) have ex: "list_ex ?P ?xs" by (simp add: id_present_def)
  note idx = takeWhile_index [OF ex]
  from saveEpisodeProgress_records(2) [OF assms(1,2) ro] assms(4) len
  have eq: "getContinueWatchingList (snd (saveEpisodeProgress episodeData st)) = ?xs[?i := dataToStore episodeData]"
    by simp
  with idx show ?thesis by (intro exI [of _ ?i]) simp
qed

theorem saveEpisodeProgress_in_place_witness:
  "get_prop (Some fresh_e2) ''movieId'' = Inr (Some (JStr ''e2'')) \<and>
   truthy (Some (JStr ''e2'')) \<and>
   store_inv (store_state [entry ''e3'', entry ''e2'', entry ''e1'']) \<and>
   id_present (Some (JStr ''e2'')) (getContinueWatchingList (store_state [entry ''e3'', entry ''e2'', entry ''e1''])) \<and>
   getContinueWatchingList (snd (saveEpisodeProgress (Some fresh_e2)
        (store_state [entry ''e3'', entry ''e2'', entry ''e1''])))
     = [entry ''e3'', JObj [(''movieId'', JStr ''e2''), (''title'', JStr ''new'')], entry ''e1'']"
proof -
  let ?st = "store_state [entry ''e3'', entry ''e2'', entry ''e1'']"
  have l: "getContinueWatchingList ?st = [entry ''e3'', entry ''e2'', entry ''e1'']"
    by (simp add: store_state_def)
  have h1: "get_prop (Some fresh_e2) ''movieId'' = Inr (Some (JStr ''e2''))"
    by (simp add: fresh_e2_def)
  have h2: "truthy (Some (JStr ''e2''))" by simp
  have h3: "store_inv ?st"
    by (simp add: store_inv_def records_only_def l) (simp add: entry_def)
  have h4: "id_present (Some (JStr ''e2'')) (getContinueWatchingList ?st)"
    unfolding l by (simp add: id_present_def entry_def movieId_of_def strict_eq_def)
  have d: "dataToStore (Some fresh_e2) = JObj [(''movieId'', JStr ''e2''), (''title'', JStr ''new'')]"
    by (simp add: dataToStore_def fresh_e2_def AList.delete_eq)
  from saveEpisodeProgress_in_place [OF h1 h2 h3 h4] obtain i where
    i: "i < length [entry ''e3'', entry ''e2'', entry ''e1'']"
      "strict_eq (movieId_of ([entry ''e3'', entry ''e2'', entry ''e1''] ! i)) (Some (JStr ''e2''))"
      "getContinueWatchingList (snd (saveEpisodeProgress (Some fresh_e2) ?st))
         = [entry ''e3'', entry ''e2'', entry ''e1''][i := dataToStore (Some fresh_e2)]"
    unfolding l by blast
  from i(1) have "i = 0 \<or> i = 1 \<or> i = 2" by (simp add: less_Suc_eq) arith
  with i(2) have "i = 1"
    by (auto simp: entry_def movieId_of_def strict_eq_def)
  with i(3) d have "getContinueWatchingList (snd (saveEpisodeProgress (Some fresh_e2) ?st))
      = [entry ''e3'', JObj [(''movieId'', JStr ''e2''), (''title'', JStr ''new'')], entry ''e1'']"
    by simp
  with h1 h2 h3 h4 show ?thesis by simp
qed

text \<open>
  Claim C5. \<open>saveEpisodeProgress\<close> stores the copy of the record without its property
  \<open>video\<close>, its other properties as they are. For a store the script produces and a
  record whose id is a string, a number or \<open>true\<close>, the stored copy is in the list
  afterwards and \<open>getSavedEpisode\<close> of the id returns it: a record with no \<open>video\<close> and no
  rendition of any tier.
\<close>

theorem saveEpisodeProgress_strips_video:
  assumes "get_prop episodeData ''movieId'' = Inr movieId" and "truthy movieId"
    and "strict_eq movieId movieId"
    and "store_inv st"
  shows "fst (saveEpisodeProgress episodeData st) = None \<and>
    dataToStore episodeData \<in> set (getContinueWatchingList (snd (saveEpisodeProgress episodeData st))) \<and>
    getSavedEpisode movieId (snd (saveEpisodeProgress episodeData st)) = Inr (dataToStore episodeData) \<and>
    get_prop (Some (dataToStore episodeData)) ''video'' = Inr None \<and>
    (\<forall>q. rendition (Some (dataToStore episodeData)) q = None) \<and>
    (\<forall>k. k \<noteq> ''video'' \<longrightarrow> get_prop (Some (dataToStore episodeData)) k = get_prop episodeData k)"
proof -
  let ?xs = "getContinueWatchingList st"
  let ?st' = "snd (saveEpisodeProgress episodeData st)"
  let ?P = "\<lambda>item. strict_eq (movieId_of item) movieId"
  let ?d = "dataToStore episodeData"
  from assms(4) have ro: "records_only st" and len: "length ?xs \<le> 15"
    by (simp_all add: store_inv_def)
  note r = saveEpisodeProgress_records [OF assms(1,2) ro]
  from assms(1,2,3) have Pd: "?P ?d" by (simp add: movieId_of_dataToStore)
  have d_nonnull: "?d \<noteq> JNull" by (simp add: dataToStore_def)
  have found: "find ?P (getContinueWatchingList ?st') = Some ?d"
  proof (cases "id_present movieId ?xs")
    case True
    then have ex: "list_ex ?P ?xs" by (simp add: id_present_def)
    from r(2) True len find_update_first [OF ex Pd] show ?thesis by simp
  next
    case False
    with r(2) Pd show ?thesis by simp
  qed
  then have mem: "?d \<in> set (getContinueWatchingList ?st')"
    by (auto simp: find_Some_iff)
  have nn: "JNull \<notin> set (getContinueWatchingList ?st')"
  proof (cases "id_present movieId ?xs")
    case True
    with r(2) len have "set (getContinueWatchingList ?st') \<subseteq> insert ?d (set ?xs)"
      by (simp add: set_update_subset_insert)
    with ro d_nonnull show ?thesis by (auto simp: records_only_def)
  next
    case False
    with r(2) have "set (getContinueWatchingList ?st') \<subseteq> insert ?d (set ?xs)"
      using set_take_subset [of 15 "?d # ?xs"] by simp
    with ro d_nonnull show ?thesis by (auto simp: records_only_def)
  qed
  have get: "getSavedEpisode movieId ?st' = Inr ?d"
    using js_find_records [OF nn, of movieId] found
    by (simp add: getSavedEpisode_def dataToStore_def)
  from assms(1,2) obtain kvs where k: "episodeData = Some (JObj kvs)"
    using id_object by blast
  from r(1) mem get dataToStore_no_video dataToStore_rendition dataToStore_other [OF k]
  show ?thesis by simp
qed

theorem saveEpisodeProgress_strips_video_witness:
  "get_prop (Some scenario_record) ''movieId'' = Inr (Some (JStr ''m1'')) \<and>
   truthy (Some (JStr ''m1'')) \<and>
   strict_eq (Some (JStr ''m1'')) (Some (JStr ''m1'')) \<and>
   store_inv (store_state full_store) \<and>
   rendition (Some scenario_record) ''mid'' = Some (JStr ''http://x/mid.m3u8'') \<and>
   getSavedEpisode (Some (JStr ''m1'')) (snd (saveEpisodeProgress (Some scenario_record) (store_state full_store)))
     = Inr (JObj [(''movieId'', JStr ''m1'')])"
proof -
  have l: "getContinueWatchingList (store_state full_store) = full_store"
    by (simp add: store_state_def)
  have h1: "get_prop (Some scenario_record) ''movieId'' = Inr (Some (JStr ''m1''))"
    by (simp add: scenario_record_def)
  have h2: "truthy (Some (JStr ''m1''))" by simp
  have h3: "strict_eq (Some (JStr ''m1'')) (Some (JStr ''m1''))" by (simp add: strict_eq_def)
  have h4: "store_inv (store_state full_store)"
    by (simp add: store_inv_def records_only_def l) (simp add: full_store_def entry_def)
  have r: "rendition (Some scenario_record) ''mid'' = Some (JStr ''http://x/mid.m3u8'')"
    by (simp add: rendition_def scenario_record_def)
  have d: "dataToStore (Some scenario_record) = JObj [(''movieId'', JStr ''m1'')]"
    by (simp add: dataToStore_def scenario_record_def AList.delete_eq)
  from saveEpisodeProgress_strips_video [OF h1 h2 h3 h4] d h1 h2 h3 h4 r
  show ?thesis by simp
qed

section \<open>Properties of the merge\<close>

text \<open>
  Claim C7, amended. For a fresh record (an object) and a saved record that is present,
  \<open>mergeSavedWithFreshEpisode\<close> returns the fresh record with \<open>continueWatching\<close> set to the
  saved record's progress, or to the zero progress when the saved record has none; every
  other property is that of the fresh record. When the saved record is absent the result
  is the fresh record itself, with the progress it came with: no zero progress is put in.
\<close>

theorem mergeSavedWithFreshEpisode_progress:
  assumes "freshEpisode = Some (JObj kvs)"
  shows "(truthy savedEpisode \<longrightarrow>
           (\<exists>r. mergeSavedWithFreshEpisode savedEpisode freshEpisode = Inr (Some (JObj r)) \<and>
              map_of r ''continueWatching'' =
                Some (case savedProgress savedEpisode of Some p \<Rightarrow> p | None \<Rightarrow> zeroProgress) \<and>
              (\<forall>k. k \<noteq> ''continueWatching'' \<longrightarrow> map_of r k = map_of kvs k))) \<and>
         (\<not> truthy savedEpisode \<longrightarrow>
           mergeSavedWithFreshEpisode savedEpisode freshEpisode = Inr freshEpisode)"
proof (cases "truthy savedEpisode")
  case False
  then show ?thesis by (simp add: mergeSavedWithFreshEpisode_def)
next
  case True
  then obtain cw where cw: "get_prop savedEpisode ''continueWatching'' = Inr cw"
    by (cases "(savedEpisode, ''continueWatching'')" rule: get_prop.cases) auto
  let ?p = "case cw of None \<Rightarrow> zeroProgress | Some v \<Rightarrow> if truthy (Some v) then v else zeroProgress"
  have m: "mergeSavedWithFreshEpisode savedEpisode freshEpisode =
      Inr (Some (JObj (AList.update ''continueWatching'' ?p kvs)))"
    using True cw assms by (simp add: mergeSavedWithFreshEpisode_def)
  have p: "?p = (case savedProgress savedEpisode of Some p \<Rightarrow> p | None \<Rightarrow> zeroProgress)"
    using cw by (simp add: savedProgress_def split: option.splits)
  show ?thesis using True m p by (simp add: update_conv)
qed

theorem mergeSavedWithFreshEpisode_progress_witness:
  "Some fresh_m1 = Some (JObj [(''movieId'', JStr ''m1''), (''locked'', JBool False),
     (''continueWatching'', JObj [(''inMinutes'', JNum 5), (''inPercentage'', JNum 10)]),
     (''video'', JObj [(''lowVideo'', JStr ''http://x/low.m3u8'')])]) \<and>
   truthy (Some saved_m1) \<and> \<not> truthy None \<and>
   mergeSavedWithFreshEpisode (Some saved_m1) (Some fresh_m1) =
     Inr (Some (JObj [(''movieId'', JStr ''m1''), (''locked'', JBool False),
       (''continueWatching'', JObj [(''inMinutes'', JNum 120), (''inPercentage'', JNum 40)]),
       (''video'', JObj [(''lowVideo'', JStr ''http://x/low.m3u8'')])])) \<and>
   mergeSavedWithFreshEpisode None (Some fresh_m1) = Inr (Some fresh_m1)"
proof -
  have h: "Some fresh_m1 = Some (JObj [(''movieId'', JStr ''m1''), (''locked'', JBool False),
     (''continueWatching'', JObj [(''inMinutes'', JNum 5), (''inPercentage'', JNum 10)]),
     (''video'', JObj [(''lowVideo'', JStr ''http://x/low.m3u8'')])])"
    by (simp add: fresh_m1_def)
  have t: "truthy (Some saved_m1)" by (simp add: saved_m1_def)
  have m: "mergeSavedWithFreshEpisode (Some saved_m1) (Some fresh_m1) =
     Inr (Some (JObj [(''movieId'', JStr ''m1''), (''locked'', JBool False),
       (''continueWatching'', JObj [(''inMinutes'', JNum 120), (''inPercentage'', JNum 40)]),
       (''video'', JObj [(''lowVideo'', JStr ''http://x/low.m3u8'')])]))"
    by (simp add: mergeSavedWithFreshEpisode_def saved_m1_def fresh_m1_def)
  from mergeSavedWithFreshEpisode_progress [OF h, of None] h t m show ?thesis by simp
qed

text \<open>
  The claim as stated also gives a zero progress when the saved record is absent. With no
  saved record, a fresh record that carries a progress of 5 seconds and 10 percent is
  returned with that progress.
\<close>

theorem mergeSavedWithFreshEpisode_absent_counterexample:
  "mergeSavedWithFreshEpisode None (Some fresh_m1) = Inr (Some fresh_m1) \<and>
   get_prop (Some fresh_m1) ''continueWatching''
     = Inr (Some (JObj [(''inMinutes'', JNum 5), (''inPercentage'', JNum 10)])) \<and>
   JObj [(''inMinutes'', JNum 5), (''inPercentage'', JNum 10)] \<noteq> zeroProgress"
  by (simp add: mergeSavedWithFreshEpisode_def fresh_m1_def zeroProgress_def)

section \<open>Properties of the cleanup\<close>

lemma strict_eq_str: "strict_eq v (Some (JStr s)) \<longleftrightarrow> v = Some (JStr s)"
  by (auto simp: strict_eq_def split: option.splits json.splits)

lemma get_prop_nonnull: "item \<noteq> JNull \<Longrightarrow> \<exists>v. get_prop (Some item) k = Inr v"
  by (cases item) simp_all

lemma watchedPastEndTime_endOffset:
  assumes "endTimeOf rt item = Inr endTime"
  shows "watchedPastEndTime rt endTime m =
     (case endOffset rt item of None \<Rightarrow> False | Some e \<Rightarrow> number_gt (ToNumber rt m) e)"
  using assms by (simp add: watchedPastEndTime_def endOffset_def split: option.splits)

lemma endTimeOf_nonnull: "item \<noteq> JNull \<Longrightarrow> \<exists>t. endTimeOf rt item = Inr t"
proof -
  assume "item \<noteq> JNull"
  then obtain time where t: "get_prop (Some item) ''time'' = Inr time"
    using get_prop_nonnull by blast
  show ?thesis
  proof (cases "time = None \<or> time = Some JNull")
    case True
    with t show ?thesis by (auto simp: endTimeOf_def)
  next
    case False
    then obtain v where "get_prop time ''endTime'' = Inr v"
      by (cases "(time, ''endTime'')" rule: get_prop.cases) auto
    with t False show ?thesis by (auto simp: endTimeOf_def split: option.splits)
  qed
qed

lemma keepItem_null: "keepItem rt JNull = Inl TypeError"
  by (simp add: keepItem_def)

lemma keepItem_no_progress:
  assumes "item \<noteq> JNull" "watchedPercent item = None"
  shows "keepItem rt item = Inr True"
proof -
  from assms(1) obtain cw where cw: "get_prop (Some item) ''continueWatching'' = Inr cw"
    using get_prop_nonnull by blast
  show ?thesis
  proof (cases "truthy cw")
    case False
    with cw show ?thesis by (simp add: keepItem_def)
  next
    case True
    then obtain p where p: "get_prop cw ''inPercentage'' = Inr p"
      using get_prop_truthy by blast
    with cw True assms(2) have "\<forall>x. p \<noteq> Some (JNum x)"
      by (auto simp: watchedPercent_def)
    with cw True p show ?thesis
      by (auto simp: keepItem_def split: option.splits json.splits)
  qed
qed

text \<open>
  On a record with numeric progress the callback removes a completed movie, removes a
  completed episode whether its part is final or not, and keeps the rest.
\<close>

lemma keepItem_progress:
  assumes "item \<noteq> JNull" "watchedPercent item = Some p"
  shows "keepItem rt item =
     (if itemType item = Some (JStr ''M'') \<and> completed rt item then Inr False
      else if itemType item = Some (JStr ''S'')
      then (case isFinalPartOf (case get_prop (Some item) ''partName'' of Inr v \<Rightarrow> v | Inl e \<Rightarrow> None) of
              Inl e \<Rightarrow> Inl e
            | Inr f \<Rightarrow> Inr (\<not> completed rt item))
      else Inr True)"
proof -
  from assms(1) obtain cw where cw: "get_prop (Some item) ''continueWatching'' = Inr cw"
    using get_prop_nonnull by blast
  with assms(2) have t: "truthy cw" and pc: "get_prop cw ''inPercentage'' = Inr (Some (JNum p))"
    by (auto simp: watchedPercent_def split: if_splits sum.splits option.splits json.splits)
  from t obtain m where m: "watchedMinutesOf cw = Inr m"
    using get_prop_truthy [of cw "''inMinutes''"] by (auto simp: watchedMinutesOf_def)
  from assms(1) obtain e where e: "endTimeOf rt item = Inr e"
    using endTimeOf_nonnull by blast
  from assms(1) obtain ty where ty: "get_prop (Some item) ''type'' = Inr ty"
    using get_prop_nonnull by blast
  from assms(1) obtain pn where pn: "get_prop (Some item) ''partName'' = Inr pn"
    using get_prop_nonnull by blast
  have ws: "watchedSeconds item = m" using cw m by (simp add: watchedSeconds_def)
  have c: "completed rt item = (p > 90 \<or> watchedPastEndTime rt e m)"
    using assms(2) ws watchedPastEndTime_endOffset [OF e, of m]
    by (simp add: completed_def split: option.splits)
  have it: "itemType item = ty" using ty by (simp add: itemType_def)
  show ?thesis
    using cw t pc m e ty pn c it
    by (simp add: keepItem_def Let_def strict_eq_str split: sum.splits)
qed

lemma keepItem_not_raises:
  assumes "\<not> raises rt item"
  shows "keepItem rt item = Inr (\<not> (movieOrSeries item \<and> completed rt item))"
proof -
  from assms have nn: "item \<noteq> JNull"
    by (auto simp: raises_def keepItem_null)
  show ?thesis
  proof (cases "watchedPercent item")
    case None
    with nn show ?thesis by (simp add: keepItem_no_progress completed_def)
  next
    case (Some p)
    from keepItem_progress [OF nn Some, of rt] assms show ?thesis
      by (auto simp: raises_def movieOrSeries_def split: if_splits sum.splits)
  qed
qed

text \<open>
  The callback raises on a \<open>null\<close> entry, and on an episode with numeric progress whose
  \<open>partName\<close> is truthy and not a string; on nothing else.
\<close>

lemma raises_iff:
  "raises rt item \<longleftrightarrow>
     item = JNull \<or>
     (watchedPercent item \<noteq> None \<and> itemType item = Some (JStr ''S'') \<and>
      (\<exists>v. get_prop (Some item) ''partName'' = Inr v \<and> truthy v \<and> (\<forall>s. v \<noteq> Some (JStr s))))"
proof (cases "item = JNull")
  case True
  then show ?thesis by (simp add: raises_def keepItem_null)
next
  case False
  then obtain pn where pn: "get_prop (Some item) ''partName'' = Inr pn"
    using get_prop_nonnull by blast
  have fin: "(\<exists>e. isFinalPartOf pn = Inl e) \<longleftrightarrow> truthy pn \<and> (\<forall>s. pn \<noteq> Some (JStr s))"
    by (auto simp: isFinalPartOf_def split: option.splits json.splits)
  show ?thesis
  proof (cases "watchedPercent item")
    case None
    with False show ?thesis by (simp add: raises_def keepItem_no_progress)
  next
    case (Some p)
    from keepItem_progress [OF False Some, of rt] pn fin False Some show ?thesis
      by (auto simp: raises_def split: sum.splits if_splits)
  qed
qed

lemma raises_Inl: "raises rt item \<Longrightarrow> \<exists>e. keepItem rt item = Inl e"
  by (cases "keepItem rt item") (simp_all add: raises_def)

lemma js_filter_total:
  assumes "\<forall>x\<in>set xs. \<exists>b. p x = Inr b"
  shows "js_filter p xs = Inr (filter (\<lambda>x. p x = Inr True) xs)"
  using assms by (induction xs) auto

lemma js_filter_raises:
  assumes "\<exists>x\<in>set xs. \<exists>e. p x = Inl e"
  shows "\<exists>e. js_filter p xs = Inl e"
  using assms
proof (induction xs)
  case Nil
  then show ?case by simp
next
  case (Cons a xs)
  show ?case
  proof (cases "p a")
    case (Inl e)
    then show ?thesis by simp
  next
    case (Inr b)
    with Cons.prems have "\<exists>x\<in>set xs. \<exists>e. p x = Inl e" by auto
    from Cons.IH [OF this] Inr show ?thesis by auto
  qed
qed

lemma list_console_error [simp]:
  "getContinueWatchingList (console_error m st) = getContinueWatchingList st"
  by (simp add: getContinueWatchingList_def console_error_def)

lemma filter_same_length: "length (filter P xs) = length xs \<Longrightarrow> filter P xs = xs"
  by (metis filter_True length_filter_less less_irrefl_nat)

lemma cleanup_array:
  assumes "localStorage st CONTINUE_WATCHING_KEY = Some (Encoding (JArr xs))"
    and "\<forall>item\<in>set xs. \<not> raises rt item"
  shows "getContinueWatchingList (cleanupCompletedMovies rt st) =
     filter (\<lambda>item. \<not> (movieOrSeries item \<and> completed rt item)) xs"
proof -
  let ?keep = "\<lambda>item. \<not> (movieOrSeries item \<and> completed rt item)"
  from assms(2) have k: "\<forall>item\<in>set xs. keepItem rt item = Inr (?keep item)"
    by (simp add: keepItem_not_raises)
  then have "\<forall>x\<in>set xs. \<exists>b. keepItem rt x = Inr b" by blast
  from js_filter_total [OF this] k
  have f: "js_filter (keepItem rt) xs = Inr (filter ?keep xs)"
    by (simp cong: filter_cong)
  have l: "getContinueWatchingList st = xs"
    using assms(1) by (simp add: getContinueWatchingList_def)
  show ?thesis
  proof (cases "length (filter ?keep xs) = length xs")
    case True
    then have "filter ?keep xs = xs" by (rule filter_same_length)
    with True assms(1) f l show ?thesis
      by (simp add: cleanupCompletedMovies_def)
  next
    case False
    have "length (filter ?keep xs) \<le> length xs" by simp
    with False have "length (filter ?keep xs) < length xs" by linarith
    with assms(1) f show ?thesis
      by (simp add: cleanupCompletedMovies_def)
  qed
qed

lemma cleanup_not_array:
  assumes "\<forall>xs. localStorage st CONTINUE_WATCHING_KEY \<noteq> Some (Encoding (JArr xs))"
  shows "getContinueWatchingList st = [] \<and>
         getContinueWatchingList (cleanupCompletedMovies rt st) = []"
proof (cases "localStorage st CONTINUE_WATCHING_KEY")
  case None
  then show ?thesis
    by (simp add: getContinueWatchingList_def cleanupCompletedMovies_def)
next
  case (Some t)
  show ?thesis
  proof (cases t)
    case (Unparseable s)
    with Some show ?thesis
      by (simp add: getContinueWatchingList_def cleanupCompletedMovies_def console_error_def)
  next
    case (Encoding v)
    with Some assms show ?thesis
      by (cases v) (simp_all add: getContinueWatchingList_def cleanupCompletedMovies_def)
  qed
qed

lemma cleanup_raises:
  assumes "\<exists>item\<in>set (getContinueWatchingList st). raises rt item"
  shows "cleanupCompletedMovies rt st =
     console_error ''Error cleaning up completed movies from localStorage:'' st"
proof -
  have "\<exists>xs. localStorage st CONTINUE_WATCHING_KEY = Some (Encoding (JArr xs))"
  proof (rule ccontr)
    assume "\<not> ?thesis"
    then have "getContinueWatchingList st = []" using cleanup_not_array by blast
    with assms show False by simp
  qed
  then obtain xs where xs: "localStorage st CONTINUE_WATCHING_KEY = Some (Encoding (JArr xs))"
    by blast
  then have "getContinueWatchingList st = xs"
    by (simp add: getContinueWatchingList_def)
  with assms have "\<exists>x\<in>set xs. \<exists>e. keepItem rt x = Inl e"
    using raises_Inl by blast
  then obtain e where "js_filter (keepItem rt) xs = Inl e"
    using js_filter_raises by blast
  with xs show ?thesis by (simp add: cleanupCompletedMovies_def)
qed

lemma cleanup_unparseable:
  assumes "localStorage st CONTINUE_WATCHING_KEY = Some (Unparseable s)" "s \<noteq> []"
  shows "cleanupCompletedMovies rt st =
     console_error ''Error cleaning up completed movies from localStorage:'' st"
  using assms by (simp add: cleanupCompletedMovies_def)

lemma cleanup_other_keys:
  "k \<noteq> CONTINUE_WATCHING_KEY \<Longrightarrow> localStorage (cleanupCompletedMovies rt st) k = localStorage st k"
  by (simp add: cleanupCompletedMovies_def console_error_def setItem_def Let_def
      split: option.splits storedText.splits json.splits sum.splits)

text \<open>The cleanup keeps a store the script produces such a store.\<close>

lemma store_inv_cleanupCompletedMovies:
  assumes "store_inv st"
  shows "store_inv (cleanupCompletedMovies rt st)"
proof (cases "\<exists>item\<in>set (getContinueWatchingList st). raises rt item")
  case True
  then have "cleanupCompletedMovies rt st =
      console_error ''Error cleaning up completed movies from localStorage:'' st"
    by (rule cleanup_raises)
  with assms show ?thesis by (simp add: store_inv_def records_only_def)
next
  case False
  then have ok: "\<forall>item\<in>set (getContinueWatchingList st). \<not> raises rt item" by blast
  have "getContinueWatchingList (cleanupCompletedMovies rt st) =
      filter (\<lambda>item. \<not> (movieOrSeries item \<and> completed rt item)) (getContinueWatchingList st)"
  proof (cases "\<exists>xs. localStorage st CONTINUE_WATCHING_KEY = Some (Encoding (JArr xs))")
    case True
    then obtain xs where xs: "localStorage st CONTINUE_WATCHING_KEY = Some (Encoding (JArr xs))"
      by blast
    then have "getContinueWatchingList st = xs" by (simp add: getContinueWatchingList_def)
    with ok cleanup_array [OF xs] show ?thesis by simp
  next
    case False
    then show ?thesis using cleanup_not_array [of st rt] by simp
  qed
  then have eq: "getContinueWatchingList (cleanupCompletedMovies rt st) =
      filter (\<lambda>item. \<not> (movieOrSeries item \<and> completed rt item)) (getContinueWatchingList st)" .
  have "length (getContinueWatchingList (cleanupCompletedMovies rt st)) \<le> length (getContinueWatchingList st)"
    unfolding eq by (rule length_filter_le)
  moreover have "set (getContinueWatchingList (cleanupCompletedMovies rt st)) \<subseteq> set (getContinueWatchingList st)"
    unfolding eq by (rule filter_is_subset)
  ultimately show ?thesis using assms
    by (auto simp: store_inv_def records_only_def)
qed

text \<open>
  Claim C6, amended. \<open>cleanupCompletedMovies\<close> returns without raising, for every state.
  When no stored entry makes the callback raise, the list afterwards is the stored list
  without the completed records of type \<open>'M'\<close> or \<open>'S'\<close>. A record is completed only if
  its watched percentage is a number; it is then completed when that percentage exceeds
  90, or when its watched time exceeds a defined end offset (one that parses to a number
  other than zero). Every other record is kept, in order: every record of another type or
  of none, and every record with missing or non-numeric percentage, also one watched past
  its end offset. When an entry makes the callback raise, or the stored text is not JSON,
  the error is logged and \<open>localStorage\<close> is as before. No other key of \<open>localStorage\<close> is
  touched.
\<close>

theorem cleanupCompletedMovies_removes:
  "((\<forall>item\<in>set (getContinueWatchingList st). \<not> raises rt item) \<longrightarrow>
      getContinueWatchingList (cleanupCompletedMovies rt st) =
        filter (\<lambda>item. \<not> (movieOrSeries item \<and> completed rt item)) (getContinueWatchingList st) \<and>
      (\<forall>item\<in>set (getContinueWatchingList st). watchedPercent item = None \<longrightarrow>
         item \<in> set (getContinueWatchingList (cleanupCompletedMovies rt st)))) \<and>
   ((\<exists>item\<in>set (getContinueWatchingList st). raises rt item) \<or>
    (\<exists>s. s \<noteq> [] \<and> localStorage st CONTINUE_WATCHING_KEY = Some (Unparseable s)) \<longrightarrow>
      cleanupCompletedMovies rt st =
        console_error ''Error cleaning up completed movies from localStorage:'' st \<and>
      localStorage (cleanupCompletedMovies rt st) = localStorage st) \<and>
   (\<forall>k. k \<noteq> CONTINUE_WATCHING_KEY \<longrightarrow>
      localStorage (cleanupCompletedMovies rt st) k = localStorage st k)"
proof -
  let ?keep = "\<lambda>item. \<not> (movieOrSeries item \<and> completed rt item)"
  have a: "getContinueWatchingList (cleanupCompletedMovies rt st) = filter ?keep (getContinueWatchingList st)"
    if ok: "\<forall>item\<in>set (getContinueWatchingList st). \<not> raises rt item"
  proof (cases "\<exists>xs. localStorage st CONTINUE_WATCHING_KEY = Some (Encoding (JArr xs))")
    case True
    then obtain xs where xs: "localStorage st CONTINUE_WATCHING_KEY = Some (Encoding (JArr xs))"
      by blast
    then have l: "getContinueWatchingList st = xs"
      by (simp add: getContinueWatchingList_def)
    with ok cleanup_array [OF xs] show ?thesis by simp
  next
    case False
    then show ?thesis using cleanup_not_array [of st rt] by simp
  qed
  have b: "item \<in> set (getContinueWatchingList (cleanupCompletedMovies rt st))"
    if ok: "\<forall>item\<in>set (getContinueWatchingList st). \<not> raises rt item"
      and i: "item \<in> set (getContinueWatchingList st)" "watchedPercent item = None" for item
    using a [OF ok] i by (simp add: completed_def)
  have c: "cleanupCompletedMovies rt st =
        console_error ''Error cleaning up completed movies from localStorage:'' st"
    if "(\<exists>item\<in>set (getContinueWatchingList st). raises rt item) \<or>
        (\<exists>s. s \<noteq> [] \<and> localStorage st CONTINUE_WATCHING_KEY = Some (Unparseable s))"
    using that cleanup_raises cleanup_unparseable by blast
  have d: "localStorage (console_error m st) = localStorage st" for m
    by (simp add: console_error_def)
  from a b c d cleanup_other_keys show ?thesis by (auto simp del: set_filter)
qed

lemma parse_2400: "parseInt_string example_runtime ''2400'' = Finite 2400"
  by (simp add: parseInt_string_def example_runtime_def isDigit_def digitsValue_def Let_def)

lemma endOffset_watched: "endOffset example_runtime (watched i ty m p) = Some (Finite 2400)"
  by (simp add: endOffset_def endTimeOf_def watched_def parse_2400)

lemma watchedPercent_watched: "watchedPercent (watched i ty m p) = Some p"
  by (simp add: watchedPercent_def watched_def)

lemma completed_watched:
  "completed example_runtime (watched i ty m p) \<longleftrightarrow> p > 90 \<or> m > 2400"
  by (simp add: completed_def watchedPercent_watched endOffset_watched)
     (simp add: watchedSeconds_def watchedMinutesOf_def watched_def)

lemma itemType_watched: "itemType (watched i ty m p) = Some (JStr ty)"
  by (simp add: itemType_def watched_def)

lemma raises_watched: "\<not> raises rt (watched i ty m p)"
  by (auto simp: raises_iff itemType_watched watched_def)

lemma raises_others:
  "\<not> raises rt no_progress" "\<not> raises rt typeless_record" "\<not> raises rt unmeasured"
  "raises rt JNull"
  by (simp_all add: raises_iff watchedPercent_def no_progress_def typeless_record_def
      unmeasured_def itemType_def)

theorem cleanupCompletedMovies_removes_witness:
  "list_all (\<lambda>item. \<not> raises example_runtime item) (getContinueWatchingList (store_state mixed_store)) \<and>
   getContinueWatchingList (cleanupCompletedMovies example_runtime (store_state mixed_store))
     = [watched ''c'' ''M'' 100 30, no_progress, typeless_record, unmeasured] \<and>
   list_ex (raises example_runtime) (getContinueWatchingList (store_state [watched ''a'' ''M'' 100 95, JNull])) \<and>
   getContinueWatchingList (cleanupCompletedMovies example_runtime (store_state [watched ''a'' ''M'' 100 95, JNull]))
     = [watched ''a'' ''M'' 100 95, JNull] \<and>
   console (cleanupCompletedMovies example_runtime (store_state [watched ''a'' ''M'' 100 95, JNull]))
     = [LogError ''Error cleaning up completed movies from localStorage:'']"
proof -
  let ?rt = example_runtime
  have l: "getContinueWatchingList (store_state xs) = xs" for xs
    by (simp add: store_state_def)
  have h1: "\<forall>item\<in>set (getContinueWatchingList (store_state mixed_store)). \<not> raises ?rt item"
    by (simp add: l mixed_store_def raises_watched raises_others)
  have f: "filter (\<lambda>item. \<not> (movieOrSeries item \<and> completed ?rt item)) mixed_store
      = [watched ''c'' ''M'' 100 30, no_progress, typeless_record, unmeasured]"
    by (simp add: mixed_store_def movieOrSeries_def itemType_watched completed_watched)
       (simp add: completed_def watchedPercent_def itemType_def no_progress_def typeless_record_def
         unmeasured_def)
  have h2: "\<exists>item\<in>set (getContinueWatchingList (store_state [watched ''a'' ''M'' 100 95, JNull])). raises ?rt item"
    by (simp add: l raises_others)
  have c: "console (store_state xs) = []" for xs
    by (simp add: store_state_def setItem_def init_state_def)
  from cleanupCompletedMovies_removes [of "store_state mixed_store" ?rt] h1 f l
  have r1: "getContinueWatchingList (cleanupCompletedMovies ?rt (store_state mixed_store))
     = [watched ''c'' ''M'' 100 30, no_progress, typeless_record, unmeasured]"
    by simp
  from cleanupCompletedMovies_removes [of "store_state [watched ''a'' ''M'' 100 95, JNull]" ?rt] h2
  have r2: "cleanupCompletedMovies ?rt (store_state [watched ''a'' ''M'' 100 95, JNull]) =
      console_error ''Error cleaning up completed movies from localStorage:''
        (store_state [watched ''a'' ''M'' 100 95, JNull])"
    by blast
  have r2l: "getContinueWatchingList (cleanupCompletedMovies ?rt (store_state [watched ''a'' ''M'' 100 95, JNull]))
      = [watched ''a'' ''M'' 100 95, JNull]"
    by (simp add: r2 l)
  have r2c: "console (cleanupCompletedMovies ?rt (store_state [watched ''a'' ''M'' 100 95, JNull]))
      = [LogError ''Error cleaning up completed movies from localStorage:'']"
    by (simp add: r2 c console_error_def)
  from h1 h2 r1 r2l r2c show ?thesis
    by (simp add: list_all_iff list_ex_iff)
qed

text \<open>
  The claim as stated removes every record watched to more than 90 percent. A stored
  record with no \<open>type\<close>, watched to 95 percent, is kept.
\<close>

theorem cleanupCompletedMovies_untyped_counterexample:
  "watchedPercent typeless_record = Some 95 \<and>
   getContinueWatchingList (store_state [typeless_record]) = [typeless_record] \<and>
   getContinueWatchingList (cleanupCompletedMovies example_runtime (store_state [typeless_record]))
     = [typeless_record]"
proof -
  have k: "keepItem example_runtime typeless_record = Inr True"
    by (simp add: keepItem_def typeless_record_def watchedMinutesOf_def endTimeOf_def strict_eq_def
        watchedPastEndTime_def Let_def)
  have l: "getContinueWatchingList (store_state [typeless_record]) = [typeless_record]"
    by (simp add: store_state_def)
  have s: "localStorage (store_state [typeless_record]) CONTINUE_WATCHING_KEY
      = Some (Encoding (JArr [typeless_record]))"
    by (simp add: store_state_def setItem_def JSON_stringify_def)
  have "cleanupCompletedMovies example_runtime (store_state [typeless_record]) = store_state [typeless_record]"
    by (simp add: cleanupCompletedMovies_def s k)
  with l show ?thesis
    by (simp add: watchedPercent_def typeless_record_def)
qed

section \<open>Properties of the episode switch\<close>

lemma adView_simps [simp]:
  "adView (st\<lparr>console := c\<rparr>) = adView st"
  "adView (st\<lparr>commands := cs\<rparr>) = adView st"
  "adView (st\<lparr>videoType := v\<rparr>) = adView st"
  "adView (st\<lparr>tempData := t\<rparr>) = adView st"
  "adView (st\<lparr>localStorage := l\<rparr>) = adView st"
  "adView (st\<lparr>currentMovieData := m\<rparr>) = adView st"
  "adView (st\<lparr>activeQuality := q\<rparr>) = adView st"
  "adView (st\<lparr>isAdPlaying := b\<rparr>) = adView st"
  "adView (st\<lparr>fullscreen := b\<rparr>) = adView st"
  "adView (st\<lparr>lockOverlayShown := b\<rparr>) = adView st"
  by (simp_all add: adView_def)

lemma adView_console_error [simp]: "adView (console_error m st) = adView st"
  by (simp add: console_error_def)

lemma adView_console_warn [simp]: "adView (console_warn m st) = adView st"
  by (simp add: console_warn_def)

lemma adView_issue [simp]: "adView (issue c st) = adView st"
  by (simp add: issue_def)

lemma adView_setItem [simp]: "adView (setItem k t st) = adView st"
  by (simp add: setItem_def)

lemma adView_notifyHost [simp]: "adView (notifyHost l st) = adView st"
  by (simp add: notifyHost_def)

lemma adView_saveEpisodeProgress [simp]:
  "adView (snd (saveEpisodeProgress ep st)) = adView st"
  by (simp add: saveEpisodeProgress_def Let_def split: sum.splits option.splits)

lemma adView_setVideoType [simp]:
  "adView (snd (setVideoType u sel st)) = adView st"
  by (simp add: setVideoType_def Let_def split: option.splits json.splits prod.splits)

lemma adView_determine [simp]:
  "adView (snd (determinePlaybackQualityAndUrl_part002 md pq st)) = adView st"
  by (simp add: determinePlaybackQualityAndUrl_part002_def Let_def split: sum.splits)

lemma adView_exitFullscreenIfNeeded [simp]: "adView (exitFullscreenIfNeeded st) = adView st"
  by (simp add: exitFullscreenIfNeeded_def)

lemma adView_playBlockedLollAd [simp]: "adView (playBlockedLollAd u st) = adView st"
  by (simp add: playBlockedLollAd_def Let_def)

lemma adView_showLockOverlay [simp]: "adView (snd (showLockOverlay st)) = adView st"
  by (simp add: showLockOverlay_def Let_def split: sum.splits)

lemma adView_switchToRecord [simp]: "adView (snd (switchToRecord ep st)) = adView st"
proof -
  obtain r2 st2 where s: "saveEpisodeProgress ep (st\<lparr>currentMovieData := ep\<rparr>) = (r2, st2)"
    by fastforce
  from adView_saveEpisodeProgress [of ep "st\<lparr>currentMovieData := ep\<rparr>"] s
  have v2: "adView st2 = adView st" by simp
  obtain r3 st3 where
    d: "determinePlaybackQualityAndUrl_part002 (currentMovieData st2) (getUserQualityPreference st2) st2 = (r3, st3)"
    by fastforce
  from adView_determine [of "currentMovieData st2" "getUserQualityPreference st2" st2] d v2
  have v3: "adView st3 = adView st" by simp
  show ?thesis
  proof (cases r2)
    case (Some e)
    with s v2 show ?thesis by (simp add: switchToRecord_def)
  next
    case None
    with s d v3 show ?thesis
      by (simp add: switchToRecord_def Let_def split: sum.splits option.splits prod.splits)
  qed
qed

lemma playView_simps [simp]:
  "playView (st\<lparr>console := c\<rparr>) = playView st"
  "playView (st\<lparr>commands := cs\<rparr>) = playView st"
  "playView (st\<lparr>videoType := v\<rparr>) = playView st"
  "playView (st\<lparr>tempData := t\<rparr>) = playView st"
  "playView (st\<lparr>localStorage := l\<rparr>) = playView st"
  "playView (st\<lparr>activeQuality := q\<rparr>) = playView st"
  "playView (st\<lparr>fullscreen := b\<rparr>) = playView st"
  "playView (st\<lparr>lockOverlayShown := b\<rparr>) = playView st"
  "playView (st\<lparr>liveTimers := ts\<rparr>) = playView st"
  "playView (st\<lparr>adCountdownInterval := h\<rparr>) = playView st"
  "playView (st\<lparr>nextEpisodeCountdownTimer := h\<rparr>) = playView st"
  "playView (st\<lparr>nextEpisodeBorderAnimation := h\<rparr>) = playView st"
  by (simp_all add: playView_def)

lemma playView_ops [simp]:
  "playView (console_error m st) = playView st"
  "playView (console_warn m st) = playView st"
  "playView (issue c st) = playView st"
  "playView (setItem k t st) = playView st"
  "playView (notifyHost l st) = playView st"
  by (simp_all add: console_error_def console_warn_def issue_def setItem_def notifyHost_def)

lemma playView_saveEpisodeProgress [simp]:
  "playView (snd (saveEpisodeProgress ep st)) = playView st"
  by (simp add: saveEpisodeProgress_def Let_def split: sum.splits option.splits)

lemma playView_setVideoType [simp]:
  "playView (snd (setVideoType u sel st)) = playView st"
  by (simp add: setVideoType_def Let_def split: option.splits json.splits prod.splits)

lemma playView_determine [simp]:
  "playView (snd (determinePlaybackQualityAndUrl_part002 md pq st)) = playView st"
  by (simp add: determinePlaybackQualityAndUrl_part002_def Let_def split: sum.splits)

lemma playView_clear [simp]:
  "playView (clearAdCountdown st) = playView st"
  "playView (clearNextEpisodeTimers st) = playView st"
  by (simp_all add: clearAdCountdown_def clearNextEpisodeTimers_def clearInterval_def
      cancelAnimationFrame_def issue_def Let_def split: option.splits)

text \<open>What the selection returns does not depend on the state, and its URL is truthy.\<close>

lemma fst_setVideoType: "fst (setVideoType u sel st) = fst (setVideoType u sel st')"
  by (simp add: setVideoType_def Let_def split: option.splits json.splits prod.splits)

lemma fst_determine:
  "fst (determinePlaybackQualityAndUrl_part002 md pq st) = fst (determinePlaybackQualityAndUrl_part002 md pq st')"
  using fst_setVideoType
  by (auto simp: determinePlaybackQualityAndUrl_part002_def Let_def split: sum.splits)

lemma determine_truthy:
  assumes "fst (determinePlaybackQualityAndUrl_part002 md pq st) = Inr (Some (u, q))"
  shows "truthy (Some u)"
proof -
  from assms obtain vd sel where
    sel: "selectUrl ''mid'' ''mid'' vd pq = Inr sel"
      "fst (setVideoType ''m3u8'' sel (st\<lparr>tempData := md\<rparr>)) = Inr (Some (u, q))"
    by (auto simp: determinePlaybackQualityAndUrl_part002_def Let_def split: sum.splits if_splits)
  from sel(2) obtain s where u: "u = JStr s" "sel = Some (JStr s, q)"
    by (auto simp: setVideoType_def Let_def split: option.splits json.splits if_splits)
  have usable_truthy: "usable url = Inr (Some x) \<Longrightarrow> truthy (Some x)" for url x
    by (auto simp: usable_def split: if_splits option.splits json.splits)
  have scan: "scanQualities qs skip vd = Inr (Some (x, q')) \<Longrightarrow> truthy (Some x)" for qs skip x q'
    by (induction qs) (auto split: if_splits sum.splits option.splits dest: usable_truthy)
  from sel(1) u(2) have "truthy (Some (JStr s))"
    by (auto simp: selectUrl_def split: option.splits sum.splits if_splits dest: usable_truthy scan)
  with u show ?thesis by simp
qed

lemma fst_saveEpisodeProgress:
  "localStorage st = localStorage st' \<Longrightarrow> fst (saveEpisodeProgress ep st) = fst (saveEpisodeProgress ep st')"
  by (simp add: saveEpisodeProgress_def getContinueWatchingList_def Let_def split: sum.splits option.splits)

lemma pref_saveEpisodeProgress:
  "getUserQualityPreference (snd (saveEpisodeProgress ep st)) = getUserQualityPreference st"
  by (simp add: saveEpisodeProgress_def getUserQualityPreference_def Let_def setItem_def notifyHost_def
      USER_QUALITY_PREFERENCE_KEY_def CONTINUE_WATCHING_KEY_def split: sum.splits option.splits)

lemma localStorage_blocks:
  "localStorage (clearNextEpisodeTimers (clearAdCountdown (resetAdTracking st))) = localStorage st"
  by (simp add: clearNextEpisodeTimers_def clearAdCountdown_def resetAdTracking_def clearInterval_def
      cancelAnimationFrame_def issue_def Let_def split: option.splits)

lemma isAdPlaying_showLockOverlay:
  assumes "truthy (currentMovieData st)" "\<not> isAdPlaying st"
  shows "isAdPlaying (snd (showLockOverlay st)) \<longleftrightarrow>
     get_prop (currentMovieData st) ''adstatus'' = Inr (Some (JBool True)) \<and> adPlugin st"
proof -
  from assms(1) obtain a where a: "get_prop (currentMovieData st) ''adstatus'' = Inr a"
    by (cases "(currentMovieData st, ''adstatus'')" rule: get_prop.cases) auto
  have e: "strict_eq a (Some (JBool True)) \<longleftrightarrow> a = Some (JBool True)"
    by (auto simp: strict_eq_def split: option.splits json.splits)
  show ?thesis using a e assms(2)
    by (simp add: showLockOverlay_def Let_def playBlockedLollAd_def exitFullscreenIfNeeded_def issue_def)
qed

lemma fst_showLockOverlay:
  assumes "truthy (currentMovieData st)"
  shows "fst (showLockOverlay st) = None"
proof -
  from assms obtain a where "get_prop (currentMovieData st) ''adstatus'' = Inr a"
    by (cases "(currentMovieData st, ''adstatus'')" rule: get_prop.cases) auto
  then show ?thesis by (simp add: showLockOverlay_def Let_def issue_def)
qed

text \<open>
  After the rest of the switch an ad is playing exactly when the record was stored, no
  rendition was selected, the episode is locked, its \<open>adstatus\<close> is \<open>true\<close> and the ad
  plugin is there: the lock overlay then starts the ad for blocked content.
\<close>

lemma isAdPlaying_switchToRecord:
  assumes ep: "truthy ep" and np: "\<not> isAdPlaying st"
  shows "isAdPlaying (snd (switchToRecord ep st)) \<longleftrightarrow>
     fst (saveEpisodeProgress ep st) = None \<and>
     fst (determinePlaybackQualityAndUrl_part002 ep (getUserQualityPreference st) st) = Inr None \<and>
     (\<exists>locked. get_prop ep ''locked'' = Inr locked \<and> truthy locked) \<and>
     get_prop ep ''adstatus'' = Inr (Some (JBool True)) \<and> adPlugin st"
proof -
  let ?st1 = "st\<lparr>currentMovieData := ep\<rparr>"
  obtain r2 st2 where s: "saveEpisodeProgress ep ?st1 = (r2, st2)" by fastforce
  have r2: "fst (saveEpisodeProgress ep st) = r2"
    using s fst_saveEpisodeProgress [of ?st1 st ep] by simp
  from playView_saveEpisodeProgress [of ep ?st1] s np
  have v2: "\<not> isAdPlaying st2" "adPlugin st2 = adPlugin st" "currentMovieData st2 = ep"
    by (simp_all add: playView_def)
  from pref_saveEpisodeProgress [of ep ?st1] s
  have p2: "getUserQualityPreference st2 = getUserQualityPreference st"
    by (simp add: getUserQualityPreference_def)
  obtain r3 st3 where
    d: "determinePlaybackQualityAndUrl_part002 ep (getUserQualityPreference st) st2 = (r3, st3)"
    by fastforce
  have r3: "fst (determinePlaybackQualityAndUrl_part002 ep (getUserQualityPreference st) st) = r3"
    using d fst_determine [of ep "getUserQualityPreference st" st2 st] by simp
  from playView_determine [of ep "getUserQualityPreference st" st2] d v2
  have v3: "\<not> isAdPlaying st3" "adPlugin st3 = adPlugin st" "currentMovieData st3 = ep"
    by (simp_all add: playView_def)
  from ep obtain locked where l: "get_prop ep ''locked'' = Inr locked"
    by (cases "(ep, ''locked'')" rule: get_prop.cases) auto
  from ep obtain title where t: "get_prop ep ''title'' = Inr title"
    by (cases "(ep, ''title'')" rule: get_prop.cases) auto
  show ?thesis
  proof (cases r2)
    case (Some e)
    with s v2 r2 show ?thesis by (simp add: switchToRecord_def)
  next
    case None
    note r2None = this
    show ?thesis
    proof (cases r3)
      case (Inl e)
      with None s d v2 v3 p2 r2 r3 show ?thesis by (simp add: switchToRecord_def)
    next
      case (Inr info)
      show ?thesis
      proof (cases info)
        case (Some uq)
        obtain u q where uq: "uq = (u, q)" by (cases uq)
        from Inr Some uq r3 have "truthy (Some u)"
          using determine_truthy [of ep "getUserQualityPreference st" st u q] by simp
        with r2None Inr Some uq s d v2 v3 p2 l t r2 r3 show ?thesis
          by (simp add: switchToRecord_def Let_def issue_def)
      next
        case None
        let ?st4 = "st3\<lparr>activeQuality := []\<rparr>"
        have lock: "isAdPlaying (snd (showLockOverlay ?st4)) \<longleftrightarrow>
            get_prop ep ''adstatus'' = Inr (Some (JBool True)) \<and> adPlugin st"
          using isAdPlaying_showLockOverlay [of ?st4] v3 ep by simp
        from r2None Inr None s d v2 v3 p2 l r2 r3 lock show ?thesis
          by (simp add: switchToRecord_def Let_def issue_def console_error_def)
      qed
    qed
  qed
qed

lemma fst_switchToRecord_no_url:
  assumes ep: "truthy ep"
    and sv: "fst (saveEpisodeProgress ep st) = None"
    and dt: "fst (determinePlaybackQualityAndUrl_part002 ep (getUserQualityPreference st) st) = Inr None"
    and l: "get_prop ep ''locked'' = Inr locked"
  shows "fst (switchToRecord ep st) = None"
proof -
  let ?st1 = "st\<lparr>currentMovieData := ep\<rparr>"
  obtain r2 st2 where s: "saveEpisodeProgress ep ?st1 = (r2, st2)" by fastforce
  have r2: "r2 = None"
    using s sv fst_saveEpisodeProgress [of ?st1 st ep] by simp
  from playView_saveEpisodeProgress [of ep ?st1] s
  have v2: "currentMovieData st2 = ep" by (simp add: playView_def)
  from pref_saveEpisodeProgress [of ep ?st1] s
  have p2: "getUserQualityPreference st2 = getUserQualityPreference st"
    by (simp add: getUserQualityPreference_def)
  obtain r3 st3 where
    d: "determinePlaybackQualityAndUrl_part002 ep (getUserQualityPreference st) st2 = (r3, st3)"
    by fastforce
  have r3: "r3 = Inr None"
    using d dt fst_determine [of ep "getUserQualityPreference st" st2 st] by simp
  from playView_determine [of ep "getUserQualityPreference st" st2] d v2
  have v3: "currentMovieData st3 = ep" by (simp add: playView_def)
  have lock: "fst (showLockOverlay (st3\<lparr>activeQuality := []\<rparr>)) = None"
    using fst_showLockOverlay [of "st3\<lparr>activeQuality := []\<rparr>"] v3 ep by simp
  from s r2 d r3 v2 p2 l lock show ?thesis
    by (simp add: switchToRecord_def Let_def)
qed

text \<open>
  The commands are a log: every function of the switch adds to the end of it. The three
  first blocks add the mark of the reset and then, when a countdown is pending on timer
  \<open>h\<close>, the call \<open>clearInterval(h)\<close>.
\<close>

lemma commands_saveEpisodeProgress:
  "\<exists>rest. commands (snd (saveEpisodeProgress ep st)) = commands st @ rest"
  by (simp add: saveEpisodeProgress_def Let_def setItem_def notifyHost_def
      split: sum.splits option.splits)

lemma commands_setVideoType: "commands (snd (setVideoType u sel st)) = commands st"
  by (simp add: setVideoType_def Let_def console_error_def console_warn_def
      split: option.splits json.splits prod.splits)

lemma commands_determine:
  "commands (snd (determinePlaybackQualityAndUrl_part002 md pq st)) = commands st"
  by (simp add: determinePlaybackQualityAndUrl_part002_def Let_def console_error_def
      commands_setVideoType split: sum.splits)

lemma commands_showLockOverlay:
  "\<exists>rest. commands (snd (showLockOverlay st)) = commands st @ rest"
  by (simp add: showLockOverlay_def Let_def issue_def playBlockedLollAd_def
      exitFullscreenIfNeeded_def split: sum.splits)

lemma commands_switchToRecord:
  "\<exists>rest. commands (snd (switchToRecord ep st)) = commands st @ rest"
proof -
  let ?st1 = "st\<lparr>currentMovieData := ep\<rparr>"
  obtain r2 st2 where s: "saveEpisodeProgress ep ?st1 = (r2, st2)" by fastforce
  from commands_saveEpisodeProgress [of ep ?st1] s obtain rest2 where
    c2: "commands st2 = commands st @ rest2" by auto
  obtain r3 st3 where
    d: "determinePlaybackQualityAndUrl_part002 (currentMovieData st2) (getUserQualityPreference st2) st2 = (r3, st3)"
    by fastforce
  from commands_determine [of "currentMovieData st2" "getUserQualityPreference st2" st2] d c2
  have c3: "commands st3 = commands st @ rest2" by simp
  have lock: "\<exists>rest. commands (snd (showLockOverlay (st3\<lparr>activeQuality := q\<rparr>))) = commands st @ rest" for q
    using commands_showLockOverlay [of "st3\<lparr>activeQuality := q\<rparr>"] c3 by auto
  show ?thesis
  proof (cases r2)
    case (Some e)
    with s c2 show ?thesis by (simp add: switchToRecord_def)
  next
    case None
    with s d c3 lock show ?thesis
      by (simp add: switchToRecord_def Let_def issue_def console_error_def
          split: sum.splits option.splits prod.splits)
  qed
qed

lemma commands_blocks:
  "\<exists>rest. commands (clearNextEpisodeTimers (clearAdCountdown (resetAdTracking st))) =
     commands st @ AdTrackingReset #
       (case adCountdownInterval st of Some h \<Rightarrow> [ClearInterval h] | None \<Rightarrow> []) @ rest"
  by (simp add: clearNextEpisodeTimers_def clearAdCountdown_def resetAdTracking_def clearInterval_def
      cancelAnimationFrame_def issue_def Let_def split: option.splits)

lemma commands_switchToEpisode:
  assumes "truthy ep"
  shows "\<exists>rest. commands (snd (switchToEpisode ep st)) =
     commands st @ AdTrackingReset #
       (case adCountdownInterval st of Some h \<Rightarrow> [ClearInterval h] | None \<Rightarrow> []) @ rest"
proof -
  let ?s0 = "clearNextEpisodeTimers (clearAdCountdown (resetAdTracking st))"
  from commands_blocks [of st] obtain r0 where
    r0: "commands ?s0 = commands st @ AdTrackingReset #
       (case adCountdownInterval st of Some h \<Rightarrow> [ClearInterval h] | None \<Rightarrow> []) @ r0"
    by blast
  from commands_switchToRecord [of ep ?s0] obtain r1 where
    r1: "commands (snd (switchToRecord ep ?s0)) = commands ?s0 @ r1" by blast
  from assms r0 r1 show ?thesis
    by (simp add: switchToEpisode_def)
qed

text \<open>
  Claim C9, amended. When \<open>switchToEpisode\<close> is called with an episode while an ad
  countdown is pending on timer \<open>h\<close>, the first thing the call does is reset the ad
  tracking variables, and the next is \<open>clearInterval(h)\<close>: the regions are reset first and
  the pending timer is cancelled right after, in the same call. When the call returns,
  normally or with an exception, the three flags are reset, no region and no ad type is
  pending, the countdown handle is cleared and its timer is not live. No ad is marked as
  playing, except when the record was stored, no rendition could be selected and the
  episode is locked with \<open>adstatus\<close> \<open>true\<close> and the ad plugin present: then the ad for
  blocked content has been started.
\<close>

theorem switchToEpisode_ad_state:
  assumes "truthy ep"
  shows "(\<forall>h. adCountdownInterval st = Some h \<longrightarrow>
       (\<exists>rest. commands (snd (switchToEpisode ep st)) =
          commands st @ AdTrackingReset # ClearInterval h # rest)) \<and>
    \<not> preAdShown (snd (switchToEpisode ep st)) \<and> \<not> midAdShown (snd (switchToEpisode ep st)) \<and>
    \<not> postAdShown (snd (switchToEpisode ep st)) \<and>
    currentAdRegion (snd (switchToEpisode ep st)) = None \<and>
    pendingAdType (snd (switchToEpisode ep st)) = None \<and>
    adCountdownInterval (snd (switchToEpisode ep st)) = None \<and>
    (\<forall>h. adCountdownInterval st = Some h \<longrightarrow> h \<notin> liveTimers (snd (switchToEpisode ep st))) \<and>
    (isAdPlaying (snd (switchToEpisode ep st)) \<longleftrightarrow>
       fst (saveEpisodeProgress ep st) = None \<and>
       fst (determinePlaybackQualityAndUrl_part002 ep (getUserQualityPreference st) st) = Inr None \<and>
       (\<exists>locked. get_prop ep ''locked'' = Inr locked \<and> truthy locked) \<and>
       get_prop ep ''adstatus'' = Inr (Some (JBool True)) \<and> adPlugin st)"
proof -
  let ?s0 = "clearNextEpisodeTimers (clearAdCountdown (resetAdTracking st))"
  have sw: "switchToEpisode ep st = switchToRecord ep ?s0"
    using assms by (simp add: switchToEpisode_def)
  have order: "\<forall>h. adCountdownInterval st = Some h \<longrightarrow>
       (\<exists>rest. commands (snd (switchToEpisode ep st)) =
          commands st @ AdTrackingReset # ClearInterval h # rest)"
    using commands_switchToEpisode [OF assms, of st] by auto
  have v0: "adView ?s0 = (False, False, False, None, None, None, liveTimers ?s0)"
    by (simp add: adView_def clearNextEpisodeTimers_def clearAdCountdown_def resetAdTracking_def
        clearInterval_def cancelAnimationFrame_def issue_def Let_def split: option.splits)
  have lt: "\<forall>h. adCountdownInterval st = Some h \<longrightarrow> h \<notin> liveTimers ?s0"
    by (simp add: clearNextEpisodeTimers_def clearAdCountdown_def resetAdTracking_def
        clearInterval_def cancelAnimationFrame_def issue_def Let_def split: option.splits)
  from adView_switchToRecord [of ep ?s0] v0
  have v: "adView (snd (switchToEpisode ep st)) = (False, False, False, None, None, None, liveTimers ?s0)"
    by (simp add: sw)
  have p0: "\<not> isAdPlaying ?s0" "adPlugin ?s0 = adPlugin st"
    using playView_clear [of "resetAdTracking st"] playView_clear(2) [of "clearAdCountdown (resetAdTracking st)"]
    by (simp_all add: playView_def resetAdTracking_def issue_def)
  have ls: "localStorage ?s0 = localStorage st" by (rule localStorage_blocks)
  have f1: "fst (saveEpisodeProgress ep ?s0) = fst (saveEpisodeProgress ep st)"
    using ls by (rule fst_saveEpisodeProgress)
  have f2: "getUserQualityPreference ?s0 = getUserQualityPreference st"
    using ls by (simp add: getUserQualityPreference_def)
  have f3: "fst (determinePlaybackQualityAndUrl_part002 ep (getUserQualityPreference st) ?s0)
      = fst (determinePlaybackQualityAndUrl_part002 ep (getUserQualityPreference st) st)"
    by (rule fst_determine)
  have ad: "isAdPlaying (snd (switchToEpisode ep st)) \<longleftrightarrow>
       fst (saveEpisodeProgress ep st) = None \<and>
       fst (determinePlaybackQualityAndUrl_part002 ep (getUserQualityPreference st) st) = Inr None \<and>
       (\<exists>locked. get_prop ep ''locked'' = Inr locked \<and> truthy locked) \<and>
       get_prop ep ''adstatus'' = Inr (Some (JBool True)) \<and> adPlugin st"
    using isAdPlaying_switchToRecord [OF assms p0(1)] p0(2) f1 f2 f3 by (simp add: sw)
  from v have flags: "\<not> preAdShown (snd (switchToEpisode ep st))" "\<not> midAdShown (snd (switchToEpisode ep st))"
    "\<not> postAdShown (snd (switchToEpisode ep st))" "currentAdRegion (snd (switchToEpisode ep st)) = None"
    "pendingAdType (snd (switchToEpisode ep st)) = None" "adCountdownInterval (snd (switchToEpisode ep st)) = None"
    "liveTimers (snd (switchToEpisode ep st)) = liveTimers ?s0"
    by (simp_all add: adView_def)
  from lt flags(7) have lt': "\<forall>h. adCountdownInterval st = Some h \<longrightarrow> h \<notin> liveTimers (snd (switchToEpisode ep st))"
    by simp
  from order flags(1-6) lt' ad show ?thesis by blast
qed

lemma pending_facts:
  "adCountdownInterval pending_state = Some (Handle 7)"
  "pendingAdType pending_state = Some midLoll"
  "midAdShown pending_state = False"
  "liveTimers pending_state = {Handle 7}"
  "adPlugin pending_state"
  "commands pending_state = []"
  "localStorage pending_state = (\<lambda>k. None)"
  by (simp_all add: pending_state_def init_state_def)

lemma pref_pending: "getUserQualityPreference pending_state = None"
  by (simp add: getUserQualityPreference_def pending_facts)

lemma determine_locked:
  "fst (determinePlaybackQualityAndUrl_part002 (Some locked_episode) None st) = Inr None"
  by (simp add: determinePlaybackQualityAndUrl_part002_def Let_def selectUrl_def usable_def
      qualityOrder_def setVideoType_def locked_episode_def)

lemma determine_scenario:
  "fst (determinePlaybackQualityAndUrl_part002 (Some scenario_record) None st)
     = Inr (Some (JStr ''http://x/mid.m3u8'', ''mid''))"
  by (simp add: determinePlaybackQualityAndUrl_part002_def Let_def selectUrl_def usable_def
      qualityOrder_def setVideoType_def scenario_record_def)

theorem switchToEpisode_ad_state_witness:
  "truthy (Some scenario_record) \<and>
   pendingAdType pending_state = Some midLoll \<and>
   adCountdownInterval pending_state = Some (Handle 7) \<and>
   Handle 7 \<in> liveTimers pending_state \<and>
   take 2 (commands (snd (switchToEpisode (Some scenario_record) pending_state)))
     = [AdTrackingReset, ClearInterval (Handle 7)] \<and>
   \<not> preAdShown (snd (switchToEpisode (Some scenario_record) pending_state)) \<and>
   \<not> midAdShown (snd (switchToEpisode (Some scenario_record) pending_state)) \<and>
   \<not> postAdShown (snd (switchToEpisode (Some scenario_record) pending_state)) \<and>
   pendingAdType (snd (switchToEpisode (Some scenario_record) pending_state)) = None \<and>
   adCountdownInterval (snd (switchToEpisode (Some scenario_record) pending_state)) = None \<and>
   Handle 7 \<notin> liveTimers (snd (switchToEpisode (Some scenario_record) pending_state)) \<and>
   \<not> isAdPlaying (snd (switchToEpisode (Some scenario_record) pending_state))"
proof -
  have h: "truthy (Some scenario_record)" by (simp add: scenario_record_def)
  note th = switchToEpisode_ad_state [OF h, of pending_state]
  from th pending_facts(1) obtain rest where
    "commands (snd (switchToEpisode (Some scenario_record) pending_state)) =
       commands pending_state @ AdTrackingReset # ClearInterval (Handle 7) # rest"
    by blast
  then have order: "take 2 (commands (snd (switchToEpisode (Some scenario_record) pending_state)))
     = [AdTrackingReset, ClearInterval (Handle 7)]"
    by (simp add: pending_facts)
  from th have flags:
    "\<not> preAdShown (snd (switchToEpisode (Some scenario_record) pending_state))"
    "\<not> midAdShown (snd (switchToEpisode (Some scenario_record) pending_state))"
    "\<not> postAdShown (snd (switchToEpisode (Some scenario_record) pending_state))"
    "pendingAdType (snd (switchToEpisode (Some scenario_record) pending_state)) = None"
    "adCountdownInterval (snd (switchToEpisode (Some scenario_record) pending_state)) = None"
    by blast+
  from th pending_facts(1) have timer:
    "Handle 7 \<notin> liveTimers (snd (switchToEpisode (Some scenario_record) pending_state))"
    by blast
  from th have "isAdPlaying (snd (switchToEpisode (Some scenario_record) pending_state)) \<longrightarrow>
      fst (determinePlaybackQualityAndUrl_part002 (Some scenario_record)
            (getUserQualityPreference pending_state) pending_state) = Inr None"
    by blast
  then have playing: "\<not> isAdPlaying (snd (switchToEpisode (Some scenario_record) pending_state))"
    by (simp add: pref_pending determine_scenario)
  from h order flags timer playing show ?thesis
    by (simp add: pending_facts)
qed

lemma blocks_pending:
  "clearNextEpisodeTimers (clearAdCountdown (resetAdTracking pending_state)) =
     pending_state\<lparr>preAdShown := False, currentAdRegion := None, pendingAdType := None,
       adCountdownInterval := None, liveTimers := {},
       commands := [AdTrackingReset, ClearInterval (Handle 7)]\<rparr>"
  by (simp add: clearNextEpisodeTimers_def clearAdCountdown_def resetAdTracking_def clearInterval_def
      cancelAnimationFrame_def issue_def pending_state_def init_state_def)

lemma commands_locked_switch:
  "commands (snd (switchToEpisode (Some locked_episode) pending_state)) =
     [AdTrackingReset, ClearInterval (Handle 7), Pause, ExitFullscreen,
      AdUpdateVideoLink (Some (JStr ''http://x/blocked.mp4'')) 86400 86400, ShowLockLayer]"
  by (simp add: switchToEpisode_def blocks_pending)
     (simp add: switchToRecord_def saveEpisodeProgress_def getContinueWatchingList_def
       getUserQualityPreference_def determinePlaybackQualityAndUrl_part002_def selectUrl_def
       usable_def qualityOrder_def setVideoType_def showLockOverlay_def playBlockedLollAd_def
       exitFullscreenIfNeeded_def lollAt_def issue_def console_error_def setItem_def notifyHost_def
       findIndex.simps dataToStore_def strict_eq_def Let_def
       locked_episode_def pending_state_def init_state_def
       CONTINUE_WATCHING_KEY_def USER_QUALITY_PREFERENCE_KEY_def JSON_stringify_def)

text \<open>
  The claim as stated has the timer cancelled before the regions are reset, and no ad
  playing after the switch. In a session on the web with a MidRoll countdown pending on
  timer 7, the switch to a locked episode with ads and no playable rendition returns
  normally; what it did starts with the reset of the ad tracking variables, followed by
  \<open>clearInterval(7)\<close>, in this order, and ends with the lock overlay and the ad for blocked
  content; and afterwards an ad is marked as playing.
\<close>

theorem switchToEpisode_order_counterexample:
  "truthy (Some locked_episode) \<and>
   pendingAdType pending_state = Some midLoll \<and>
   adCountdownInterval pending_state = Some (Handle 7) \<and>
   Handle 7 \<in> liveTimers pending_state \<and>
   commands pending_state = [] \<and>
   fst (switchToEpisode (Some locked_episode) pending_state) = None \<and>
   commands (snd (switchToEpisode (Some locked_episode) pending_state))
     = [AdTrackingReset, ClearInterval (Handle 7), Pause, ExitFullscreen,
        AdUpdateVideoLink (Some (JStr ''http://x/blocked.mp4'')) 86400 86400, ShowLockLayer] \<and>
   isAdPlaying (snd (switchToEpisode (Some locked_episode) pending_state))"
proof -
  let ?s0 = "clearNextEpisodeTimers (clearAdCountdown (resetAdTracking pending_state))"
  have t: "truthy (Some locked_episode)" by (simp add: locked_episode_def)
  have s0: "\<not> isAdPlaying ?s0" "adPlugin ?s0" "localStorage ?s0 = (\<lambda>k. None)"
    by (simp_all add: clearNextEpisodeTimers_def clearAdCountdown_def resetAdTracking_def
        clearInterval_def cancelAnimationFrame_def issue_def pending_state_def init_state_def)
  have sv: "fst (saveEpisodeProgress (Some locked_episode) ?s0) = None"
    by (simp add: saveEpisodeProgress_def getContinueWatchingList_def s0 Let_def locked_episode_def)
  have pr: "getUserQualityPreference ?s0 = None"
    by (simp add: getUserQualityPreference_def s0)
  have gl: "get_prop (Some locked_episode) ''locked'' = Inr (Some (JBool True))"
    "get_prop (Some locked_episode) ''adstatus'' = Inr (Some (JBool True))"
    by (simp_all add: locked_episode_def)
  have play: "isAdPlaying (snd (switchToRecord (Some locked_episode) ?s0))"
    using isAdPlaying_switchToRecord [OF t s0(1)] sv pr determine_locked gl s0(2) by simp
  have sw: "switchToEpisode (Some locked_episode) pending_state = switchToRecord (Some locked_episode) ?s0"
    using t by (simp add: switchToEpisode_def)
  have r: "fst (switchToRecord (Some locked_episode) ?s0) = None"
    using fst_switchToRecord_no_url [OF t] sv pr determine_locked gl(1) by simp
  from t play sw r commands_locked_switch show ?thesis
    by (simp add: pending_facts)
qed

end
